theory Spec2Isabelle
  imports Main
begin

section \<open>JavaScript values as the logger sees them\<close>

text \<open>
  The logger (\<^verbatim>\<open>src/lib/logger.ts\<close>) receives arbitrary JavaScript values as message
  template, as interpolation arguments and as constructor options. The fragment modelled:
  \<^item> \<open>JNum n\<close> is an integer-valued number (a safe integer, so that \<^verbatim>\<open>String(n)\<close> is its
    decimal text);
  \<^item> \<open>JFrac t\<close> is a finite number that is not an integer, kept by its canonical text \<open>t\<close>
    (what \<^verbatim>\<open>String\<close> yields, such as \<^verbatim>\<open>1.5\<close>);
  \<^item> \<open>JBigInt n\<close> is a BigInt, the one plain value \<^verbatim>\<open>JSON.stringify\<close> refuses;
  \<^item> \<open>JObj es\<close> is a plain object, \<open>es\<close> being \<^verbatim>\<open>Object.entries\<close> of it in enumeration order.
  Strings are lists of characters. Cyclic objects, accessors, symbols and functions are outside
  the fragment.
\<close>

datatype js_value =
    JNull
  | JUndefined
  | JBool bool
  | JNum int
  | JFrac string
  | JBigInt int
  | JStr string
  | JArr "js_value list"
  | JObj "(string \<times> js_value) list"

text \<open>A thrown value: an \<^verbatim>\<open>Error\<close> instance with its message, or any other value.\<close>

datatype js_exn = JsError string | JsThrown js_value

text \<open>\<^verbatim>\<open>error instanceof Error ? error.message : "Unknown error"\<close>\<close>

fun error_message :: "js_exn \<Rightarrow> string" where
  "error_message (JsError m) = m"
| "error_message (JsThrown v) = ''Unknown error''"

fun typeof :: "js_value \<Rightarrow> string" where
  "typeof JNull = ''object''"
| "typeof JUndefined = ''undefined''"
| "typeof (JBool b) = ''boolean''"
| "typeof (JNum n) = ''number''"
| "typeof (JFrac t) = ''number''"
| "typeof (JBigInt n) = ''bigint''"
| "typeof (JStr s) = ''string''"
| "typeof (JArr xs) = ''object''"
| "typeof (JObj es) = ''object''"

text \<open>\<^verbatim>\<open>Array.prototype.join\<close> on strings.\<close>

fun join :: "string \<Rightarrow> string list \<Rightarrow> string" where
  "join sep [] = []"
| "join sep [x] = x"
| "join sep (x # y # ys) = x @ sep @ join sep (y # ys)"

fun dec_nat :: "nat \<Rightarrow> string" where
  "dec_nat n =
     (if n < 10 then [''0123456789'' ! n]
      else dec_nat (n div 10) @ [''0123456789'' ! (n mod 10)])"

declare dec_nat.simps [simp del]

definition dec_int :: "int \<Rightarrow> string" where
  "dec_int i = (if i < 0 then CHR ''-'' # dec_nat (nat (- i)) else dec_nat (nat i))"

text \<open>
  Conversion to a primitive. No value of the fragment is callable, so a plain object with an
  own \<^verbatim>\<open>toString\<close> property (such as \<^verbatim>\<open>JSON.parse('{"toString":"x"}')\<close>) has no usable
  \<^verbatim>\<open>toString\<close>, and the inherited \<^verbatim>\<open>valueOf\<close> returns the object itself: \<^verbatim>\<open>String\<close>, template
  interpolation, \<^verbatim>\<open>join\<close> and \<^verbatim>\<open>Number\<close> throw a \<^verbatim>\<open>TypeError\<close> on it (the message is the
  engine's). An array is converted through \<^verbatim>\<open>join\<close>, which converts every element that is
  neither \<^verbatim>\<open>null\<close> nor \<^verbatim>\<open>undefined\<close>, so it is unconvertible when an element is. Every other
  value of the fragment converts.
\<close>

definition type_error :: js_exn where
  "type_error = JsError ''Cannot convert object to primitive value''"

fun unconvertible :: "js_value \<Rightarrow> bool" where
  "unconvertible (JObj es) = (''toString'' \<in> set (map fst es))"
| "unconvertible (JArr xs) = list_ex unconvertible xs"
| "unconvertible _ = False"

text \<open>
  The text of \<^verbatim>\<open>String(v)\<close> for a value that converts. An array is its elements joined by
  commas, \<^verbatim>\<open>null\<close> and \<^verbatim>\<open>undefined\<close> elements being empty.
\<close>

fun string_text :: "js_value \<Rightarrow> string" where
  "string_text JNull = ''null''"
| "string_text JUndefined = ''undefined''"
| "string_text (JBool b) = (if b then ''true'' else ''false'')"
| "string_text (JNum n) = dec_int n"
| "string_text (JFrac t) = t"
| "string_text (JBigInt n) = dec_int n"
| "string_text (JStr s) = s"
| "string_text (JArr xs) =
     join '','' (map (\<lambda>x. if x = JNull \<or> x = JUndefined then [] else string_text x) xs)"
| "string_text (JObj es) = ''[object Object]''"

text \<open>\<^verbatim>\<open>String(v)\<close>, which is also what a template literal does to an interpolated value.\<close>

definition to_string :: "js_value \<Rightarrow> js_exn + string" where
  "to_string v = (if unconvertible v then Inl type_error else Inr (string_text v))"

text \<open>\<^verbatim>\<open>arr.join(sep)\<close> on an array of values.\<close>

definition array_join :: "string \<Rightarrow> js_value list \<Rightarrow> js_exn + string" where
  "array_join sep xs =
     (if list_ex unconvertible xs then Inl type_error
      else Inr (join sep
                 (map (\<lambda>x. if x = JNull \<or> x = JUndefined then [] else string_text x) xs)))"

text \<open>
  \<^verbatim>\<open>Array.prototype.map\<close> with a callback that may throw: the results of the calls in order,
  or the first exception.
\<close>

fun collect :: "(js_exn + 'a) list \<Rightarrow> js_exn + 'a list" where
  "collect [] = Inr []"
| "collect (Inl e # rs) = Inl e"
| "collect (Inr x # rs) = (case collect rs of Inl e \<Rightarrow> Inl e | Inr xs \<Rightarrow> Inr (x # xs))"

subsection \<open>\<^verbatim>\<open>JSON.stringify\<close>\<close>

definition hex_digit :: "nat \<Rightarrow> char" where
  "hex_digit n = ''0123456789abcdef'' ! n"

definition json_escape_char :: "char \<Rightarrow> string" where
  "json_escape_char c =
     (if c = CHR 0x22 then [CHR 0x5C, CHR 0x22]
      else if c = CHR 0x5C then [CHR 0x5C, CHR 0x5C]
      else if c = CHR 0x08 then [CHR 0x5C, CHR ''b'']
      else if c = CHR 0x0C then [CHR 0x5C, CHR ''f'']
      else if c = CHR 0x0A then [CHR 0x5C, CHR ''n'']
      else if c = CHR 0x0D then [CHR 0x5C, CHR ''r'']
      else if c = CHR 0x09 then [CHR 0x5C, CHR ''t'']
      else if (of_char c :: nat) < 32 then
        [CHR 0x5C, CHR ''u'', CHR ''0'', CHR ''0'',
         hex_digit ((of_char c :: nat) div 16), hex_digit ((of_char c :: nat) mod 16)]
      else [c])"

definition json_quote :: "string \<Rightarrow> string" where
  "json_quote s = CHR 0x22 # concat (map json_escape_char s) @ [CHR 0x22]"

fun has_bigint :: "js_value \<Rightarrow> bool" where
  "has_bigint (JBigInt n) = True"
| "has_bigint (JArr xs) = list_ex has_bigint xs"
| "has_bigint (JObj es) = list_ex (\<lambda>(k, v). has_bigint v) es"
| "has_bigint _ = False"

text \<open>
  The text of a serialisable value: an \<^verbatim>\<open>undefined\<close> array element is \<^verbatim>\<open>null\<close>, a property
  whose value is \<^verbatim>\<open>undefined\<close> is left out.
\<close>

fun json_text :: "js_value \<Rightarrow> string" where
  "json_text JNull = ''null''"
| "json_text JUndefined = ''null''"
| "json_text (JBool b) = (if b then ''true'' else ''false'')"
| "json_text (JNum n) = dec_int n"
| "json_text (JFrac t) = t"
| "json_text (JBigInt n) = dec_int n"
| "json_text (JStr s) = json_quote s"
| "json_text (JArr xs) = ''['' @ join '','' (map json_text xs) @ '']''"
| "json_text (JObj es) =
     ''{'' @ join '','' (map (\<lambda>(k, v). json_quote k @ '':'' @ json_text v)
                           (filter (\<lambda>(k, v). v \<noteq> JUndefined) es)) @ ''}''"

text \<open>
  \<^verbatim>\<open>JSON.stringify(v)\<close>: throws a \<^verbatim>\<open>TypeError\<close> on a BigInt anywhere inside (the message is
  the engine's), returns \<^verbatim>\<open>undefined\<close> (here \<open>None\<close>) for \<^verbatim>\<open>undefined\<close> itself, and the text
  otherwise.
\<close>

definition JSON_stringify :: "js_value \<Rightarrow> js_exn + string option" where
  "JSON_stringify v =
     (if has_bigint v then Inl (JsError ''Do not know how to serialize a BigInt'')
      else if v = JUndefined then Inr None
      else Inr (Some (json_text v)))"

section \<open>The interpolator: \<^verbatim>\<open>format\<close>\<close>

text \<open>
  The regular expression \<^verbatim>\<open>/%[sdifj%]/g\<close>: the template cut, left to right, into its
  matches and the characters between them.
\<close>

datatype segment = Lit char | Match string

fun regex_scan :: "string \<Rightarrow> segment list" where
  "regex_scan [] = []"
| "regex_scan [c] = [Lit c]"
| "regex_scan (c # d # rest) =
     (if c = CHR ''%'' \<and> d \<in> set ''sdifj%'' then Match [c, d] # regex_scan rest
      else Lit c # regex_scan (d # rest))"

text \<open>
  \<^verbatim>\<open>String.prototype.replace\<close> with a replacer function: the function is called on each match
  in order; the counter \<^verbatim>\<open>i\<close> that the closure mutates is threaded through, and an exception
  of the function ends the replacement.
\<close>

fun replace_fn ::
  "(string \<Rightarrow> nat \<Rightarrow> js_exn + string \<times> nat) \<Rightarrow> segment list \<Rightarrow> nat \<Rightarrow> js_exn + string \<times> nat" where
  "replace_fn cb [] i = Inr ([], i)"
| "replace_fn cb (Lit c # ss) i =
     (case replace_fn cb ss i of Inl e \<Rightarrow> Inl e | Inr (out, j) \<Rightarrow> Inr (c # out, j))"
| "replace_fn cb (Match m # ss) i =
     (case cb m i of
        Inl e \<Rightarrow> Inl e
      | Inr (r, i') \<Rightarrow>
          (case replace_fn cb ss i' of Inl e \<Rightarrow> Inl e | Inr (out, j) \<Rightarrow> Inr (r @ out, j)))"

text \<open>
  One entry of a plain object, \<^verbatim>\<open>`${k}: ${typeof v === "string" ? `'${v}'` : v}`\<close>: the
  interpolation of the value may throw.
\<close>

definition entry_text :: "string \<times> js_value \<Rightarrow> js_exn + string" where
  "entry_text kv =
     (if typeof (snd kv) = ''string''
      then Inr (fst kv @ '': '' @ [CHR 0x27] @ string_text (snd kv) @ [CHR 0x27])
      else case to_string (snd kv) of
             Inl e \<Rightarrow> Inl e
           | Inr s \<Rightarrow> Inr (fst kv @ '': '' @ s))"

text \<open>
  The \<^verbatim>\<open>%s\<close> case (lines 64 to 85). Both the object branch and the final \<^verbatim>\<open>String(arg)\<close> stand
  in a \<^verbatim>\<open>try\<close> whose \<^verbatim>\<open>catch\<close> returns \<^verbatim>\<open>[object Object]\<close>.
\<close>

fun fmt_s :: "js_value \<Rightarrow> string" where
  "fmt_s JNull = ''null''"
| "fmt_s JUndefined = ''undefined''"
| "fmt_s (JArr xs) =
     (case array_join '', '' xs of
        Inr s \<Rightarrow> ''[ '' @ s @ '' ]''
      | Inl e \<Rightarrow> ''[object Object]'')"
| "fmt_s (JObj es) =
     (case collect (map entry_text es) of
        Inr entries \<Rightarrow> ''{ '' @ join '', '' entries @ '' }''
      | Inl e \<Rightarrow> ''[object Object]'')"
| "fmt_s v = (case to_string v of Inr s \<Rightarrow> s | Inl e \<Rightarrow> ''[object Object]'')"

text \<open>
  The map callback for the trailing arguments (lines 117 to 134): the object branch is the one
  of the \<^verbatim>\<open>%s\<close> case, written a second time in the source, with the same \<^verbatim>\<open>catch\<close>; the final
  \<^verbatim>\<open>String(arg)\<close> stands outside every \<^verbatim>\<open>try\<close>.
\<close>

fun trailing_display :: "js_value \<Rightarrow> js_exn + string" where
  "trailing_display JNull = Inr ''null''"
| "trailing_display JUndefined = Inr ''undefined''"
| "trailing_display (JArr xs) =
     (case array_join '', '' xs of
        Inr s \<Rightarrow> Inr (''[ '' @ s @ '' ]'')
      | Inl e \<Rightarrow> Inr ''[object Object]'')"
| "trailing_display (JObj es) =
     (case collect (map entry_text es) of
        Inr entries \<Rightarrow> Inr (''{ '' @ join '', '' entries @ '' }'')
      | Inl e \<Rightarrow> Inr ''[object Object]'')"
| "trailing_display v = to_string v"

text \<open>
  The map callback of the branch for a template that is not a string (lines 33 to 45); its
  \<^verbatim>\<open>String(arg)\<close> stands outside the \<^verbatim>\<open>try\<close>. \<^verbatim>\<open>join\<close> renders an \<^verbatim>\<open>undefined\<close> result of
  \<^verbatim>\<open>JSON.stringify\<close> as the empty string.
\<close>

definition plain_display :: "js_value \<Rightarrow> js_exn + string" where
  "plain_display arg =
     (if arg = JNull then Inr ''null''
      else if arg = JUndefined then Inr ''undefined''
      else if typeof arg = ''object'' then
        Inr (case JSON_stringify arg of
               Inl e \<Rightarrow> ''[object Object]''
             | Inr None \<Rightarrow> []
             | Inr (Some s) \<Rightarrow> s)
      else to_string arg)"

text \<open>
  The numeric specifiers (lines 87 to 100) convert with \<^verbatim>\<open>Number(arg)\<close>, outside every
  \<^verbatim>\<open>try\<close>: an unconvertible argument makes the replacer, and with it \<^verbatim>\<open>format\<close>, throw. What
  \<^verbatim>\<open>Number\<close>, \<^verbatim>\<open>parseInt\<close> and \<^verbatim>\<open>parseFloat\<close> compute for an argument that converts is a
  parameter \<open>nt\<close>: \<open>nt m a\<close> is the text that the specifier \<open>m\<close> produces for such an argument
  \<open>a\<close> that is neither \<^verbatim>\<open>null\<close> nor \<^verbatim>\<open>undefined\<close>.
\<close>

type_synonym num_text = "string \<Rightarrow> js_value \<Rightarrow> string"

definition fmt_num :: "num_text \<Rightarrow> string \<Rightarrow> js_value \<Rightarrow> js_exn + string" where
  "fmt_num nt m arg =
     (if arg = JNull then Inr ''0''
      else if arg = JUndefined then Inr ''NaN''
      else if unconvertible arg then Inl type_error
      else Inr (nt m arg))"

definition fmt_j :: "js_value \<Rightarrow> string" where
  "fmt_j arg =
     (case JSON_stringify arg of
        Inl e \<Rightarrow> ''[Circular]''
      | Inr None \<Rightarrow> ''undefined''
      | Inr (Some s) \<Rightarrow> s)"

text \<open>The \<^verbatim>\<open>switch (match)\<close> on a consumed argument.\<close>

definition render :: "num_text \<Rightarrow> string \<Rightarrow> js_value \<Rightarrow> js_exn + string" where
  "render nt m arg =
     (if m = ''%s'' then Inr (fmt_s arg)
      else if m = ''%d'' then fmt_num nt m arg
      else if m = ''%i'' then fmt_num nt m arg
      else if m = ''%f'' then fmt_num nt m arg
      else if m = ''%j'' then Inr (fmt_j arg)
      else Inr m)"

text \<open>The replacer callback; \<open>hpp\<close> is \<^verbatim>\<open>handlePercentPercent\<close>.\<close>

definition replacer ::
  "num_text \<Rightarrow> string \<Rightarrow> js_value list \<Rightarrow> string \<Rightarrow> nat \<Rightarrow> js_exn + string \<times> nat" where
  "replacer nt hpp args m i =
     (if m = ''%%'' then Inr (hpp, i)
      else if i \<ge> length args then Inr (m, i)
      else case render nt m (args ! i) of
             Inl e \<Rightarrow> Inl e
           | Inr r \<Rightarrow> Inr (r, Suc i))"

text \<open>\<^verbatim>\<open>format(f, ...args)\<close>: the string it returns, or the exception it throws.\<close>

definition format :: "num_text \<Rightarrow> js_value \<Rightarrow> js_value list \<Rightarrow> js_exn + string" where
  "format nt f args =
     (case f of
        JStr t \<Rightarrow>
          (let handlePercentPercent = (if length args = 0 then ''%%'' else ''%'') in
           case replace_fn (replacer nt handlePercentPercent args) (regex_scan t) 0 of
             Inl e \<Rightarrow> Inl e
           | Inr (str, i) \<Rightarrow>
               (let remainingArgs = drop i args in
                if length remainingArgs > 0
                then (case collect (map trailing_display remainingArgs) of
                        Inl e \<Rightarrow> Inl e
                      | Inr ss \<Rightarrow> Inr (str @ '' '' @ join '' '' ss))
                else Inr str))
      | _ \<Rightarrow>
          (case collect (map plain_display (f # args)) of
             Inl e \<Rightarrow> Inl e
           | Inr ss \<Rightarrow> Inr (join '' '' ss)))"

section \<open>The logger\<close>

subsection \<open>Log entries and the built-in formatters\<close>

text \<open>
  \<^verbatim>\<open>LogEntry\<close>. \<open>e_levelNumber\<close> is \<^verbatim>\<open>this.options.levels[level]\<close>, which is \<^verbatim>\<open>undefined\<close> for
  a name that the table lacks; \<open>e_extra\<close> holds the properties added beyond the declared
  ones (the index signature of the interface), in insertion order.
\<close>

record log_entry =
  e_level :: string
  e_levelNumber :: "int option"
  e_time :: string
  e_pid :: int
  e_hostname :: string
  e_msg :: string
  e_callerFile :: "string option"
  e_callerLine :: "int option"
  e_extra :: "(string \<times> js_value) list"

definition opt_str :: "string option \<Rightarrow> js_value" where
  "opt_str x = (case x of None \<Rightarrow> JUndefined | Some s \<Rightarrow> JStr s)"

definition opt_num :: "int option \<Rightarrow> js_value" where
  "opt_num x = (case x of None \<Rightarrow> JUndefined | Some n \<Rightarrow> JNum n)"

text \<open>The entry as the object that \<^verbatim>\<open>JSON.stringify\<close> walks.\<close>

definition entry_object :: "log_entry \<Rightarrow> js_value" where
  "entry_object e =
     JObj ([(''level'', JStr (e_level e)),
            (''levelNumber'', opt_num (e_levelNumber e)),
            (''time'', JStr (e_time e)),
            (''pid'', JNum (e_pid e)),
            (''hostname'', JStr (e_hostname e)),
            (''msg'', JStr (e_msg e))]
           @ (case e_callerFile e of None \<Rightarrow> [] | Some f \<Rightarrow> [(''callerFile'', JStr f)])
           @ (case e_callerLine e of None \<Rightarrow> [] | Some l \<Rightarrow> [(''callerLine'', JNum l)])
           @ e_extra e)"

text \<open>\<^verbatim>\<open>s.replace(/c/g, r)\<close> for a one-character pattern and a replacement string.\<close>

definition replace_all :: "char \<Rightarrow> string \<Rightarrow> string \<Rightarrow> string" where
  "replace_all c r s = concat (map (\<lambda>x. if x = c then r else [x]) s)"

definition stringify_result :: "string option \<Rightarrow> js_value" where
  "stringify_result r = (case r of None \<Rightarrow> JUndefined | Some s \<Rightarrow> JStr s)"

definition jsonFormatter :: "log_entry \<Rightarrow> js_value" where
  \<open>jsonFormatter logEntry =
     (case JSON_stringify (entry_object logEntry) of
        Inr r \<Rightarrow> stringify_result r
      | Inl error \<Rightarrow>
          (let safeEntry =
                 JObj [(''level'', JStr (e_level logEntry)),
                       (''levelNumber'', opt_num (e_levelNumber logEntry)),
                       (''time'', JStr (e_time logEntry)),
                       (''pid'', JNum (e_pid logEntry)),
                       (''hostname'', JStr (e_hostname logEntry)),
                       (''msg'', JStr (e_msg logEntry)),
                       (''callerFile'', opt_str (e_callerFile logEntry)),
                       (''callerLine'', opt_num (e_callerLine logEntry)),
                       (''jsonError'', JStr (''JSON stringify failed: '' @ error_message error))]
           in case JSON_stringify safeEntry of
                Inr r \<Rightarrow> stringify_result r
              | Inl e2 \<Rightarrow>
                  JStr (''{"level":"'' @ e_level logEntry @ ''","msg":"'' @
                        replace_all (CHR 0x22) ''"'' (e_msg logEntry) @
                        ''","jsonError":"Multiple JSON errors occurred"}'')))\<close>

definition toUpperCase :: "string \<Rightarrow> string" where
  "toUpperCase s =
     map (\<lambda>c. if 97 \<le> (of_char c :: nat) \<and> (of_char c :: nat) \<le> 122
               then char_of ((of_char c :: nat) - 32) else c) s"

definition padEnd :: "nat \<Rightarrow> string \<Rightarrow> string" where
  "padEnd n s = s @ replicate (n - length s) CHR '' ''"

text \<open>\<^verbatim>\<open>f.split("/").pop()\<close>: what follows the last slash.\<close>

definition last_segment :: "string \<Rightarrow> string" where
  "last_segment f = rev (takeWhile (\<lambda>c. c \<noteq> CHR ''/'') (rev f))"

definition simpleFormatter :: "log_entry \<Rightarrow> js_value" where
  "simpleFormatter logEntry =
     (let levelPadded = padEnd 5 (toUpperCase (e_level logEntry));
          caller = (case e_callerFile logEntry of
                      None \<Rightarrow> None
                    | Some f \<Rightarrow>
                        if f = [] then None
                        else Some (last_segment f @ '':'' @ string_text (opt_num (e_callerLine logEntry))))
      in case caller of
           Some c \<Rightarrow>
             JStr (''['' @ e_time logEntry @ ''] ['' @ levelPadded @ ''] ['' @ c @ ''] '' @ e_msg logEntry)
         | None \<Rightarrow>
             JStr (''['' @ e_time logEntry @ ''] ['' @ levelPadded @ ''] '' @ e_msg logEntry))"

subsection \<open>The logger object, the console and the platform\<close>

text \<open>
  A formatter of the registry \<^verbatim>\<open>this.formatters\<close> is a function of the entry that throws or
  returns some value; user code may replace either registered formatter.
\<close>

type_synonym formatter = "log_entry \<Rightarrow> js_exn + js_value"

record logger =
  o_level :: string
  o_levels :: "string \<rightharpoonup> int"
  o_format :: string
  o_time :: string
  o_callerLevel :: string
  o_colours :: "string \<rightharpoonup> js_value"
  isRedirected :: bool
  formatters :: "string \<rightharpoonup> formatter"
  callerErrorCount :: nat
  maxCallerErrors :: nat

text \<open>The value of \<^verbatim>\<open>Error.prepareStackTrace\<close>; \<open>HookCallSites\<close> is the function that
  \<^verbatim>\<open>getCallerInfo\<close> installs.\<close>

datatype js_hook = HookUnset | HookUser nat | HookCallSites

text \<open>
  The process-global state: the arguments of every \<^verbatim>\<open>console.log\<close> and \<^verbatim>\<open>console.error\<close>
  call so far, the stack-trace hook, and how often a stack has been captured and read.
\<close>

record world =
  stdout :: "js_value list"
  stderr :: "(string \<times> js_exn option) list"
  prepareStackTrace :: js_hook
  stack_reads :: nat

text \<open>
  What \<^verbatim>\<open>err.stack\<close> evaluates to under the installed hook: the call sites (file name and
  line number of each frame, innermost first), or a value without \<^verbatim>\<open>shift\<close>.
\<close>

datatype stack_trace = CallSites "(string \<times> int) list" | NoCallSites

text \<open>What the platform answers during one call of \<^verbatim>\<open>log\<close>.\<close>

record env =
  stack :: stack_trace
  now_iso :: string
  pid :: int
  hostname :: string
  number_text :: num_text

subsection \<open>Construction\<close>

text \<open>The options object; an absent option is \<^verbatim>\<open>undefined\<close>.\<close>

record logger_options =
  opt_level :: js_value
  opt_levels :: js_value
  opt_format :: js_value
  opt_time :: js_value
  opt_callerLevel :: js_value
  opt_colours :: js_value

definition no_options :: logger_options where
  "no_options = \<lparr>opt_level = JUndefined, opt_levels = JUndefined, opt_format = JUndefined,
     opt_time = JUndefined, opt_callerLevel = JUndefined, opt_colours = JUndefined\<rparr>"

text \<open>\<^verbatim>\<open>list.includes(v)\<close> for a list of strings.\<close>

definition array_includes :: "string list \<Rightarrow> js_value \<Rightarrow> bool" where
  "array_includes xs v = (case v of JStr s \<Rightarrow> s \<in> set xs | _ \<Rightarrow> False)"

text \<open>\<^verbatim>\<open>Object.entries\<close> of a value whose \<^verbatim>\<open>typeof\<close> is \<^verbatim>\<open>object\<close>.\<close>

definition object_entries :: "js_value \<Rightarrow> js_exn + (string \<times> js_value) list" where
  "object_entries v =
     (case v of
        JObj es \<Rightarrow> Inr es
      | JArr xs \<Rightarrow> Inr (zip (map dec_nat [0..<length xs]) xs)
      | JNull \<Rightarrow> Inl (JsError ''Cannot convert undefined or null to object'')
      | _ \<Rightarrow> Inr [])"

text \<open>\<^verbatim>\<open>typeof value !== "number" || value < 0 || !Number.isInteger(value)\<close>, negated.\<close>

fun valid_rank :: "js_value \<Rightarrow> bool" where
  "valid_rank (JNum n) = (\<not> n < 0)"
| "valid_rank _ = False"

fun check_levels :: "(string \<times> js_value) list \<Rightarrow> js_exn + unit" where
  "check_levels [] = Inr ()"
| "check_levels ((level, value) # es) =
     (if \<not> valid_rank value
      then Inl (JsError (''Level value for '' @ [CHR 0x27] @ level @ [CHR 0x27] @
                         '' must be a non-negative integer''))
      else check_levels es)"

definition validLevels :: "string list" where
  "validLevels = [''silent'', ''error'', ''warn'', ''info'', ''debug'']"

text \<open>
  \<^verbatim>\<open>validateOptions\<close> is a sequence of blocks, each of which may throw; \<open>then_do\<close> runs the
  second one when the first one has not thrown.
\<close>

definition then_do :: "js_exn + unit \<Rightarrow> js_exn + unit \<Rightarrow> js_exn + unit" where
  "then_do a b = (case a of Inl e \<Rightarrow> Inl e | Inr u \<Rightarrow> b)"

text \<open>
  The blocks for \<^verbatim>\<open>level\<close>, \<^verbatim>\<open>format\<close>, \<^verbatim>\<open>time\<close> and \<^verbatim>\<open>callerLevel\<close>. The message
  interpolates the offending value, which throws instead when the value is unconvertible.
\<close>

definition validate_listed :: "string \<Rightarrow> string \<Rightarrow> string list \<Rightarrow> js_value \<Rightarrow> js_exn + unit" where
  "validate_listed what plural valid v =
     (if v \<noteq> JUndefined \<and> \<not> array_includes valid v
      then (case to_string v of
              Inl e \<Rightarrow> Inl e
            | Inr t \<Rightarrow>
                Inl (JsError (''Invalid '' @ what @ '': '' @ t @
                              ''. Valid '' @ plural @ '' are: '' @ join '', '' valid)))
      else Inr ())"

definition validate_colours :: "js_value \<Rightarrow> js_exn + unit" where
  "validate_colours v =
     (if v \<noteq> JUndefined \<and> typeof v \<noteq> ''object''
      then Inl (JsError ''colours option must be an object'')
      else Inr ())"

definition validate_levels :: "js_value \<Rightarrow> js_exn + unit" where
  "validate_levels v =
     (if v \<noteq> JUndefined then
        (if typeof v \<noteq> ''object'' then Inl (JsError ''levels option must be an object'')
         else case object_entries v of
                Inl e \<Rightarrow> Inl e
              | Inr es \<Rightarrow> check_levels es)
      else Inr ())"

definition validateOptions :: "logger_options \<Rightarrow> js_exn + unit" where
  "validateOptions options =
     then_do (validate_listed ''log level'' ''levels'' validLevels (opt_level options))
    (then_do (validate_listed ''format'' ''formats'' [''json'', ''simple''] (opt_format options))
    (then_do (validate_listed ''time'' ''times'' [''long'', ''short''] (opt_time options))
    (then_do (validate_listed ''callerLevel'' ''levels'' validLevels (opt_callerLevel options))
    (then_do (validate_colours (opt_colours options))
             (validate_levels (opt_levels options))))))"

definition defaultLevels :: "string \<rightharpoonup> int" where
  "defaultLevels =
     [''silent'' \<mapsto> - 1, ''error'' \<mapsto> 0, ''warn'' \<mapsto> 1, ''info'' \<mapsto> 2, ''debug'' \<mapsto> 3]"

definition defaultColours :: "string \<rightharpoonup> js_value" where
  "defaultColours =
     [''error'' \<mapsto> JStr (CHR 0x1B # ''[91m''), ''warn'' \<mapsto> JStr (CHR 0x1B # ''[33m''),
      ''info'' \<mapsto> JStr (CHR 0x1B # ''[94m''), ''debug'' \<mapsto> JStr (CHR 0x1B # ''[37m''),
      ''reset'' \<mapsto> JStr (CHR 0x1B # ''[0m'')]"

text \<open>
  \<^verbatim>\<open>Object.assign({}, defaults, source)\<close>: the own properties of the source are assigned in
  order; \<^verbatim>\<open>undefined\<close> and \<^verbatim>\<open>null\<close> sources are skipped. A rank is a number here, since
  \<^verbatim>\<open>validateOptions\<close> has run.
\<close>

definition source_entries :: "js_value \<Rightarrow> (string \<times> js_value) list" where
  "source_entries v = (case object_entries v of Inl e \<Rightarrow> [] | Inr es \<Rightarrow> es)"

definition assign_levels :: "(string \<rightharpoonup> int) \<Rightarrow> js_value \<Rightarrow> (string \<rightharpoonup> int)" where
  "assign_levels d v =
     fold (\<lambda>kv m. case snd kv of JNum n \<Rightarrow> m(fst kv \<mapsto> n) | _ \<Rightarrow> m) (source_entries v) d"

definition assign_colours :: "(string \<rightharpoonup> js_value) \<Rightarrow> js_value \<Rightarrow> (string \<rightharpoonup> js_value)" where
  "assign_colours d v = fold (\<lambda>kv m. m(fst kv \<mapsto> snd kv)) (source_entries v) d"

text \<open>\<^verbatim>\<open>v || d\<close> for an option that validation has left a listed string or \<^verbatim>\<open>undefined\<close>.\<close>

definition or_default :: "js_value \<Rightarrow> string \<Rightarrow> string" where
  "or_default v d = (case v of JStr s \<Rightarrow> (if s = [] then d else s) | _ \<Rightarrow> d)"

text \<open>\<^verbatim>\<open>new Logger(options)\<close>; \<open>is_terminal\<close> is what \<^verbatim>\<open>isTerminal()\<close> answers.\<close>

definition new_Logger :: "bool \<Rightarrow> logger_options \<Rightarrow> js_exn + logger" where
  "new_Logger is_terminal options =
     (case validateOptions options of
        Inl e \<Rightarrow> Inl e
      | Inr u \<Rightarrow>
          Inr \<lparr>o_level = or_default (opt_level options) ''info'',
               o_levels = assign_levels defaultLevels (opt_levels options),
               o_format = or_default (opt_format options) ''json'',
               o_time = or_default (opt_time options) ''short'',
               o_callerLevel = or_default (opt_callerLevel options) ''warn'',
               o_colours = assign_colours defaultColours (opt_colours options),
               isRedirected = (\<not> is_terminal),
               formatters = [''json'' \<mapsto> (\<lambda>e. Inr (jsonFormatter e)),
                             ''simple'' \<mapsto> (\<lambda>e. Inr (simpleFormatter e))],
               callerErrorCount = 0,
               maxCallerErrors = 5\<rparr>)"

subsection \<open>Caller lookup\<close>

text \<open>
  The loop over the remaining frames: \<^verbatim>\<open>callerFile\<close> is overwritten by every frame shifted,
  \<^verbatim>\<open>callerLine\<close> only by the first frame of another file.
\<close>

fun find_caller :: "string \<Rightarrow> (string \<times> int) list \<Rightarrow> string \<Rightarrow> string \<times> int" where
  "find_caller currentFile [] callerFile = (callerFile, 0)"
| "find_caller currentFile ((file, line) # rest) callerFile =
     (if currentFile \<noteq> file then (file, line) else find_caller currentFile rest file)"

text \<open>
  The body of the \<^verbatim>\<open>try\<close>: reading the first frame throws a \<^verbatim>\<open>TypeError\<close> when the stack
  has no \<^verbatim>\<open>shift\<close> or no frame (the messages are the engine's).
\<close>

definition inspect_stack :: "stack_trace \<Rightarrow> js_exn + (string \<times> int)" where
  "inspect_stack st =
     (case st of
        NoCallSites \<Rightarrow> Inl (JsError ''stack.shift is not a function'')
      | CallSites [] \<Rightarrow> Inl (JsError ''Cannot read properties of undefined'')
      | CallSites ((currentFile, l) # rest) \<Rightarrow> Inr (find_caller currentFile rest ''unknown''))"

definition console_error :: "string \<Rightarrow> js_exn option \<Rightarrow> world \<Rightarrow> world" where
  "console_error text e w = w\<lparr>stderr := stderr w @ [(text, e)]\<rparr>"

definition getCallerInfo :: "logger \<Rightarrow> world \<Rightarrow> stack_trace \<Rightarrow> (string \<times> int) \<times> logger \<times> world" where
  "getCallerInfo lg w st =
     (let originalFunc = prepareStackTrace w;
          w1 = w\<lparr>prepareStackTrace := HookCallSites, stack_reads := Suc (stack_reads w)\<rparr>
      in case inspect_stack st of
           Inr caller \<Rightarrow>
             (caller, lg\<lparr>callerErrorCount := 0\<rparr>, w1\<lparr>prepareStackTrace := originalFunc\<rparr>)
         | Inl e \<Rightarrow>
             (let lg1 = lg\<lparr>callerErrorCount := Suc (callerErrorCount lg)\<rparr>;
                  w2 = (if callerErrorCount lg1 \<le> maxCallerErrors lg1 then
                          (let w' = console_error ''Error retrieving caller info:'' (Some e) w1
                           in if callerErrorCount lg1 = maxCallerErrors lg1 then
                                console_error
                                  (''Caller detection failed '' @ dec_nat (maxCallerErrors lg1) @
                                   '' times. Suppressing further caller error messages.'') None w'
                              else w')
                        else w1)
              in ((''unknown'', 0), lg1, w2\<lparr>prepareStackTrace := originalFunc\<rparr>)))"

subsection \<open>\<^verbatim>\<open>log\<close>\<close>

text \<open>
  \<^verbatim>\<open>a > b\<close> and \<^verbatim>\<open>a <= b\<close> on ranks looked up in the table: a comparison with \<^verbatim>\<open>undefined\<close>
  is false. Level names are those of type \<^verbatim>\<open>LogLevel\<close> and the keys that the \<^verbatim>\<open>levels\<close> option
  adds; names of properties that every object inherits are not looked up.
\<close>

fun js_gt :: "int option \<Rightarrow> int option \<Rightarrow> bool" where
  "js_gt (Some a) (Some b) = (a > b)"
| "js_gt _ _ = False"

fun js_le :: "int option \<Rightarrow> int option \<Rightarrow> bool" where
  "js_le (Some a) (Some b) = (a \<le> b)"
| "js_le _ _ = False"

definition shouldIncludeCaller :: "logger \<Rightarrow> string \<Rightarrow> bool" where
  "shouldIncludeCaller lg level = js_le (o_levels lg level) (o_levels lg (o_callerLevel lg))"

text \<open>Lines 633 to 638: the caller is looked up only when it is to be included.\<close>

definition caller_step ::
  "logger \<Rightarrow> world \<Rightarrow> env \<Rightarrow> string \<Rightarrow> (string \<times> int) option \<times> logger \<times> world" where
  "caller_step lg w ev level =
     (if shouldIncludeCaller lg level
      then (case getCallerInfo lg w (stack ev) of (c, lg', w') \<Rightarrow> (Some c, lg', w'))
      else (None, lg, w))"

text \<open>\<^verbatim>\<open>s.replace(c, r)\<close> for a one-character string pattern: the first occurrence only.\<close>

fun replace_first :: "char \<Rightarrow> string \<Rightarrow> string \<Rightarrow> string" where
  "replace_first c r [] = []"
| "replace_first c r (x # xs) = (if x = c then r @ xs else x # replace_first c r xs)"

text \<open>
  Lines 640 to 661: the entry. \<^verbatim>\<open>format\<close> is called outside every \<^verbatim>\<open>try\<close>, so its exception
  leaves \<^verbatim>\<open>log\<close> and no entry is built.
\<close>

definition build_entry ::
  "logger \<Rightarrow> env \<Rightarrow> string \<Rightarrow> js_value \<Rightarrow> js_value list \<Rightarrow> (string \<times> int) option
   \<Rightarrow> js_exn + log_entry" where
  "build_entry lg ev level message args caller =
     (let time = (if o_time lg = ''long'' then now_iso ev
                  else replace_first CHR ''T'' '' '' (take 16 (now_iso ev)))
      in case format (number_text ev) message args of
           Inl e \<Rightarrow> Inl e
         | Inr msg \<Rightarrow>
             (let logEntry = \<lparr>e_level = level,
                              e_levelNumber = o_levels lg level,
                              e_time = time,
                              e_pid = pid ev,
                              e_hostname = hostname ev,
                              e_msg = msg,
                              e_callerFile = None,
                              e_callerLine = None,
                              e_extra = []\<rparr>
              in case caller of
                   Some (callerFile, callerLine) \<Rightarrow>
                     if shouldIncludeCaller lg level
                     then Inr (logEntry\<lparr>e_callerFile := Some callerFile,
                                        e_callerLine := Some callerLine\<rparr>)
                     else Inr logEntry
                 | None \<Rightarrow> Inr logEntry))"

text \<open>Calling what the registry holds; calling \<^verbatim>\<open>undefined\<close> throws a \<^verbatim>\<open>TypeError\<close>.\<close>

definition call_formatter :: "formatter option \<Rightarrow> string \<Rightarrow> log_entry \<Rightarrow> js_exn + js_value" where
  "call_formatter f callee e =
     (case f of
        None \<Rightarrow> Inl (JsError (callee @ '' is not a function''))
      | Some g \<Rightarrow> g e)"

text \<open>\<^verbatim>\<open>{...logEntry, formatterError: v}\<close>\<close>

definition with_formatterError :: "string \<Rightarrow> log_entry \<Rightarrow> log_entry" where
  "with_formatterError v e =
     (if ''formatterError'' \<in> set (map fst (e_extra e))
      then e\<lparr>e_extra := map (\<lambda>kv. if fst kv = ''formatterError'' then (fst kv, JStr v) else kv)
                             (e_extra e)\<rparr>
      else e\<lparr>e_extra := e_extra e @ [(''formatterError'', JStr v)]\<rparr>)"

text \<open>Lines 666 to 704: the formatter is selected and called, with its two fallbacks.\<close>

definition fail_safe :: "logger \<Rightarrow> log_entry \<Rightarrow> js_value" where
  \<open>fail_safe lg logEntry =
     (let formatter = (case formatters lg (o_format lg) of
                         Some f \<Rightarrow> Some f
                       | None \<Rightarrow> formatters lg ''json'');
          attempt = (case call_formatter formatter ''formatter'' logEntry of
                       Inl e \<Rightarrow> Inl e
                     | Inr formattedLog \<Rightarrow>
                         if typeof formattedLog \<noteq> ''string''
                         then Inl (JsError (''Formatter returned '' @ typeof formattedLog @
                                            '' instead of string''))
                         else Inr formattedLog)
      in case attempt of
           Inr formattedLog \<Rightarrow> formattedLog
         | Inl error \<Rightarrow>
             (let safeEntry =
                    with_formatterError (''Formatter failed: '' @ error_message error) logEntry
              in case call_formatter (formatters lg ''json'') ''this.formatters.json'' safeEntry of
                   Inr formattedLog \<Rightarrow> formattedLog
                 | Inl e2 \<Rightarrow>
                     JStr (''{"level":"'' @ e_level logEntry @ ''","msg":"'' @
                           replace_all (CHR 0x22) ''"'' (e_msg logEntry) @
                           ''","formatterError":"Formatter failed: '' @
                           error_message error @ ''"}'')))\<close>

text \<open>A template literal renders an absent colour as \<^verbatim>\<open>undefined\<close>.\<close>

definition colour_text :: "js_value option \<Rightarrow> js_exn + string" where
  "colour_text c = (case c of None \<Rightarrow> Inr ''undefined'' | Some v \<Rightarrow> to_string v)"

text \<open>
  \<^verbatim>\<open>console.log(v)\<close>: the sink is taken to accept every call; a \<^verbatim>\<open>console.log\<close> that throws
  is outside the model.
\<close>

definition console_log :: "js_value \<Rightarrow> world \<Rightarrow> world" where
  "console_log v w = w\<lparr>stdout := stdout w @ [v]\<rparr>"

text \<open>
  Lines 706 to 711. On a terminal the line is \<^verbatim>\<open>`${colour}${formattedLog}${resetColour}`\<close>,
  whose interpolations may throw; the colours are whatever the \<^verbatim>\<open>colours\<close> option held.
\<close>

definition write_log :: "logger \<Rightarrow> string \<Rightarrow> js_value \<Rightarrow> world \<Rightarrow> js_exn + world" where
  "write_log lg level formattedLog w =
     (let colour = o_colours lg level;
          resetColour = o_colours lg ''reset''
      in if isRedirected lg then Inr (console_log formattedLog w)
         else case colour_text colour of
                Inl e \<Rightarrow> Inl e
              | Inr c \<Rightarrow>
                  (case to_string formattedLog of
                     Inl e \<Rightarrow> Inl e
                   | Inr t \<Rightarrow>
                       (case colour_text resetColour of
                          Inl e \<Rightarrow> Inl e
                        | Inr r \<Rightarrow> Inr (console_log (JStr (c @ t @ r)) w))))"

text \<open>
  \<^verbatim>\<open>log(level, message, ...args)\<close>: the exception that leaves the call, if any, and the logger
  and the process state as the call leaves them.
\<close>

definition log ::
  "logger \<Rightarrow> world \<Rightarrow> env \<Rightarrow> string \<Rightarrow> js_value \<Rightarrow> js_value list
   \<Rightarrow> js_exn option \<times> logger \<times> world" where
  "log lg w ev level message args =
     (if js_gt (o_levels lg level) (o_levels lg (o_level lg)) then (None, lg, w)
      else case caller_step lg w ev level of
             (caller, lg', w') \<Rightarrow>
               (case build_entry lg ev level message args caller of
                  Inl e \<Rightarrow> (Some e, lg', w')
                | Inr logEntry \<Rightarrow>
                    (let formattedLog = fail_safe lg logEntry
                     in case write_log lg level formattedLog w' of
                          Inl e \<Rightarrow> (Some e, lg', w')
                        | Inr w'' \<Rightarrow> (None, lg', w''))))"

text \<open>The four emitting methods.\<close>

definition error ::
  "logger \<Rightarrow> world \<Rightarrow> env \<Rightarrow> js_value \<Rightarrow> js_value list \<Rightarrow> js_exn option \<times> logger \<times> world" where
  "error lg w ev message args = log lg w ev ''error'' message args"

definition warn ::
  "logger \<Rightarrow> world \<Rightarrow> env \<Rightarrow> js_value \<Rightarrow> js_value list \<Rightarrow> js_exn option \<times> logger \<times> world" where
  "warn lg w ev message args = log lg w ev ''warn'' message args"

definition info ::
  "logger \<Rightarrow> world \<Rightarrow> env \<Rightarrow> js_value \<Rightarrow> js_value list \<Rightarrow> js_exn option \<times> logger \<times> world" where
  "info lg w ev message args = log lg w ev ''info'' message args"

definition debug ::
  "logger \<Rightarrow> world \<Rightarrow> env \<Rightarrow> js_value \<Rightarrow> js_value list \<Rightarrow> js_exn option \<times> logger \<times> world" where
  "debug lg w ev message args = log lg w ev ''debug'' message args"

subsection \<open>The level accessor\<close>

text \<open>
  \<^verbatim>\<open>level(newLevel?)\<close>: the argument list holds level names, \<open>None\<close> being an explicit
  \<^verbatim>\<open>undefined\<close>. The result is the thrown error or the returned name, and the logger as the
  call leaves it.
\<close>

definition level :: "logger \<Rightarrow> string option list \<Rightarrow> (js_exn + string) \<times> logger" where
  "level lg arguments =
     (let newLevel = (case arguments of [] \<Rightarrow> None | a # _ \<Rightarrow> a)
      in if length arguments > 0 \<and> newLevel \<noteq> None then
           (case newLevel of
              Some n \<Rightarrow>
                if o_levels lg n \<noteq> None
                then (Inr n, lg\<lparr>o_level := n\<rparr>)
                else (Inl (JsError (''Invalid log level: '' @ n)), lg)
            | None \<Rightarrow> (Inr (o_level lg), lg))
         else (Inr (o_level lg), lg))"

definition setLevel :: "logger \<Rightarrow> string option list \<Rightarrow> (js_exn + string) \<times> logger" where
  "setLevel lg arguments =
     (if length arguments = 0 then level lg []
      else level lg [case arguments of [] \<Rightarrow> None | a # _ \<Rightarrow> a])"

subsection \<open>Derived notions used in the statements\<close>

text \<open>
  The entry that \<^verbatim>\<open>log\<close> builds and hands to the formatter, or the exception of \<^verbatim>\<open>format\<close>
  that prevents it.
\<close>

definition log_record ::
  "logger \<Rightarrow> world \<Rightarrow> env \<Rightarrow> string \<Rightarrow> js_value \<Rightarrow> js_value list \<Rightarrow> js_exn + log_entry" where
  "log_record lg w ev lvl message args =
     build_entry lg ev lvl message args (fst (caller_step lg w ev lvl))"

text \<open>Successive calls of \<^verbatim>\<open>getCallerInfo\<close> on one logger, one stack per call.\<close>

fun lookups :: "logger \<Rightarrow> world \<Rightarrow> stack_trace list \<Rightarrow> logger \<times> world" where
  "lookups lg w [] = (lg, w)"
| "lookups lg w (st # sts) = (case getCallerInfo lg w st of (c, lg', w') \<Rightarrow> lookups lg' w' sts)"

definition lookup_fails :: "stack_trace \<Rightarrow> bool" where
  "lookup_fails st = (case inspect_stack st of Inl e \<Rightarrow> True | Inr c \<Rightarrow> False)"

text \<open>The two diagnostics, as \<^verbatim>\<open>console.error\<close> receives them.\<close>

definition failure_report :: "stack_trace \<Rightarrow> string \<times> js_exn option" where
  "failure_report st =
     (''Error retrieving caller info:'', case inspect_stack st of Inl e \<Rightarrow> Some e | Inr c \<Rightarrow> None)"

definition suppression_notice :: "string \<times> js_exn option" where
  "suppression_notice =
     (''Caller detection failed 5 times. Suppressing further caller error messages.'', None)"

text \<open>A platform and a fresh process for the concrete instances below.\<close>

definition sample_env :: env where
  "sample_env =
     \<lparr>stack = CallSites [(''logger.ts'', 588), (''logger.ts'', 637), (''app.ts'', 12)],
      now_iso = ''2024-01-15T10:30:45.123Z'', pid = 1234, hostname = ''localhost'',
      number_text = (\<lambda>m a. string_text a)\<rparr>"

definition empty_world :: world where
  "empty_world = \<lparr>stdout = [], stderr = [], prepareStackTrace = HookUnset, stack_reads = 0\<rparr>"

text \<open>A replacement formatter that always throws \<^verbatim>\<open>new Error(msg)\<close>.\<close>

definition broken_formatter :: "string \<Rightarrow> formatter" where
  "broken_formatter msg = (\<lambda>e. Inl (JsError msg))"

text \<open>
  The interpolator, position by position. A segment of the template is consuming when it is a
  match other than \<^verbatim>\<open>%%\<close>. \<open>piece nt args i ss k\<close> is what the \<open>k\<close>-th segment of \<open>ss\<close>
  contributes when \<open>i\<close> arguments were consumed before \<open>ss\<close>: a literal character is itself;
  \<^verbatim>\<open>%%\<close> is \<^verbatim>\<open>%%\<close> when there are no arguments at all and \<^verbatim>\<open>%\<close> otherwise; any other
  specifier renders the argument whose index is the number of consuming segments before it
  (which may throw), and is left as it is when there is no such argument.
\<close>

fun is_spec :: "segment \<Rightarrow> bool" where
  "is_spec (Lit c) = False"
| "is_spec (Match m) = (m \<noteq> ''%%'')"

definition consuming :: "segment list \<Rightarrow> nat" where
  "consuming ss = length (filter is_spec ss)"

definition piece ::
  "num_text \<Rightarrow> js_value list \<Rightarrow> nat \<Rightarrow> segment list \<Rightarrow> nat \<Rightarrow> js_exn + string" where
  "piece nt args i ss k =
     (case ss ! k of
        Lit c \<Rightarrow> Inr [c]
      | Match m \<Rightarrow>
          if m = ''%%'' then Inr (if args = [] then ''%%'' else ''%'')
          else if i + consuming (take k ss) < length args
               then render nt m (args ! (i + consuming (take k ss)))
               else Inr m)"

text \<open>
  An entry of a plain object in the brace form: the key, a colon, and the value, a string value
  in single quotes.
\<close>

definition brace_entry :: "string \<times> js_value \<Rightarrow> string" where
  "brace_entry kv =
     fst kv @ '': '' @
     (if typeof (snd kv) = ''string'' then [CHR 0x27] @ string_text (snd kv) @ [CHR 0x27]
      else string_text (snd kv))"

text \<open>The elements of an array as \<^verbatim>\<open>join\<close> renders them.\<close>

definition element_text :: "js_value \<Rightarrow> string" where
  "element_text x = (if x = JNull \<or> x = JUndefined then [] else string_text x)"

text \<open>A plain object that cannot be converted to a primitive: \<^verbatim>\<open>{toString: "x"}\<close>.\<close>

definition unconvertible_object :: js_value where
  "unconvertible_object = JObj [(''toString'', JStr ''x'')]"

section \<open>Properties\<close>

subsection \<open>Shared facts\<close>

lemmas validate_defs =
  validateOptions_def then_do_def validate_listed_def validate_colours_def validate_levels_def

text \<open>The logger that \<^verbatim>\<open>new Logger()\<close> constructs.\<close>

lemma new_Logger_default:
  "new_Logger t no_options =
     Inr \<lparr>o_level = ''info'', o_levels = defaultLevels, o_format = ''json'', o_time = ''short'',
          o_callerLevel = ''warn'', o_colours = defaultColours, isRedirected = (\<not> t),
          formatters = [''json'' \<mapsto> (\<lambda>e. Inr (jsonFormatter e)),
                        ''simple'' \<mapsto> (\<lambda>e. Inr (simpleFormatter e))],
          callerErrorCount = 0, maxCallerErrors = 5\<rparr>"
  by (simp add: new_Logger_def validate_defs no_options_def or_default_def
      assign_levels_def assign_colours_def source_entries_def object_entries_def)

text \<open>What \<^verbatim>\<open>log\<close> does to the standard output once the gate is passed.\<close>

lemma getCallerInfo_stdout: "stdout (snd (snd (getCallerInfo lg w st))) = stdout w"
  by (simp add: getCallerInfo_def Let_def console_error_def split: sum.splits)

lemma write_log_written:
  assumes "write_log lg L v w = Inr w'"
  shows "\<exists>line. stdout w' = stdout w @ [line]"
    and "stack_reads w' = stack_reads w"
  using assms by (auto simp: write_log_def console_log_def Let_def split: if_splits sum.splits)

lemma caller_step_stdout: "stdout (snd (snd (caller_step lg w ev L))) = stdout w"
  using getCallerInfo_stdout [of lg w "stack ev"]
  by (cases "getCallerInfo lg w (stack ev)") (auto simp: caller_step_def)

lemma log_passed:
  "\<not> js_gt (o_levels lg L) (o_levels lg (o_level lg)) \<Longrightarrow>
   log lg w ev L m args =
     (case log_record lg w ev L m args of
        Inl e \<Rightarrow> (Some e, snd (caller_step lg w ev L))
      | Inr entry \<Rightarrow>
          (case write_log lg L (fail_safe lg entry) (snd (snd (caller_step lg w ev L))) of
             Inl e \<Rightarrow> (Some e, snd (caller_step lg w ev L))
           | Inr w'' \<Rightarrow> (None, fst (snd (caller_step lg w ev L)), w'')))"
  by (simp add: log_def log_record_def Let_def split: prod.splits sum.splits)

lemma default_logger_ranks:
  assumes "new_Logger t no_options = Inr lg"
  shows "o_levels lg = defaultLevels" and "o_level lg = ''info''" and "o_callerLevel lg = ''warn''"
    and "callerErrorCount lg = 0" and "maxCallerErrors lg = 5"
  using assms by (auto simp: new_Logger_default)

lemma dec_nat_5: "dec_nat 5 = ''5''"
  by (simp add: dec_nat.simps)

text \<open>Merging the \<^verbatim>\<open>levels\<close> option leaves the other keys of the table alone.\<close>

lemma fold_assign_levels_other:
  "k \<notin> fst ` set es \<Longrightarrow>
   fold (\<lambda>kv m. case snd kv of JNum n \<Rightarrow> m(fst kv \<mapsto> n) | _ \<Rightarrow> m) es d k = d k"
  by (induction es arbitrary: d) (auto split: js_value.splits)

lemma assign_levels_other:
  "k \<notin> fst ` set (source_entries v) \<Longrightarrow> assign_levels d v k = d k"
  by (simp add: assign_levels_def fold_assign_levels_other)

lemma sample_caller:
  "fst (getCallerInfo lg w (stack sample_env)) = (''app.ts'', 12)"
  by (simp add: getCallerInfo_def sample_env_def inspect_stack_def Let_def)

text \<open>One failing lookup, and a run of them from any counter value.\<close>

lemma getCallerInfo_failure:
  assumes "lookup_fails st" and "maxCallerErrors lg = 5"
  shows "getCallerInfo lg w st =
    ((''unknown'', 0), lg\<lparr>callerErrorCount := Suc (callerErrorCount lg)\<rparr>,
     w\<lparr>stderr := stderr w @
           (if callerErrorCount lg < 4 then [failure_report st]
            else if callerErrorCount lg = 4 then [failure_report st, suppression_notice]
            else []),
        stack_reads := Suc (stack_reads w)\<rparr>)"
  using assms
  by (auto simp: getCallerInfo_def lookup_fails_def failure_report_def suppression_notice_def
      console_error_def Let_def dec_nat_5 split: sum.splits)

lemma lookups_failures:
  assumes "list_all lookup_fails sts" and "maxCallerErrors lg = 5"
  shows "stderr (snd (lookups lg w sts)) =
           stderr w @ map failure_report (take (5 - callerErrorCount lg) sts) @
           (if callerErrorCount lg < 5 \<and> 5 \<le> callerErrorCount lg + length sts
            then [suppression_notice] else []) \<and>
         callerErrorCount (fst (lookups lg w sts)) = callerErrorCount lg + length sts"
  using assms
proof (induction sts arbitrary: lg w)
  case Nil
  then show ?case by simp
next
  case (Cons st sts)
  then have f: "lookup_fails st" and r: "list_all lookup_fails sts" by simp_all
  let ?lg = "lg\<lparr>callerErrorCount := Suc (callerErrorCount lg)\<rparr>"
  have m: "maxCallerErrors ?lg = 5" using Cons.prems by simp
  let ?w = "w\<lparr>stderr := stderr w @
           (if callerErrorCount lg < 4 then [failure_report st]
            else if callerErrorCount lg = 4 then [failure_report st, suppression_notice]
            else []),
        stack_reads := Suc (stack_reads w)\<rparr>"
  have step: "lookups lg w (st # sts) = lookups ?lg ?w sts"
    using getCallerInfo_failure [OF f Cons.prems(2), of w] by simp
  note ih = Cons.IH [OF r m, of ?w]
  consider "callerErrorCount lg < 4" | "callerErrorCount lg = 4" | "callerErrorCount lg > 4"
    by linarith
  then show ?case
  proof cases
    case 1
    then have "5 - callerErrorCount lg = Suc (5 - Suc (callerErrorCount lg))" by simp
    with 1 ih show ?thesis unfolding step by simp
  next
    case 2
    with ih show ?thesis unfolding step by simp
  next
    case 3
    with ih show ?thesis unfolding step by simp
  qed
qed

text \<open>When validation succeeds.\<close>

lemma check_levels_ok:
  "(check_levels es = Inr ()) = (\<forall>kv\<in>set es. \<exists>n. snd kv = JNum n \<and> 0 \<le> n)"
proof (induction es)
  case Nil
  show ?case by simp
next
  case (Cons kv es)
  obtain k v where kv: "kv = (k, v)" by (cases kv)
  have "valid_rank v = (\<exists>n. v = JNum n \<and> 0 \<le> n)"
    by (cases v) auto
  with Cons kv show ?case by auto
qed

lemma new_Logger_ok: "(\<exists>lg. new_Logger t options = Inr lg) = (validateOptions options = Inr ())"
  by (auto simp: new_Logger_def split: sum.splits)

lemma then_do_ok: "(then_do a b = Inr ()) = (a = Inr () \<and> b = Inr ())"
  by (cases a) (auto simp: then_do_def)

lemma check_levels_silent:
  "(''silent'', JNum (- 1)) \<in> set es \<Longrightarrow> check_levels es \<noteq> Inr ()"
  unfolding check_levels_ok by force

lemma validate_levels_obj: "validate_levels (JObj es) = check_levels es"
  by (simp add: validate_levels_def object_entries_def)

lemma assign_levels_dom: "d k \<noteq> None \<Longrightarrow> assign_levels d v k \<noteq> None"
proof -
  have "fold (\<lambda>kv m. case snd kv of JNum n \<Rightarrow> m(fst kv \<mapsto> n) | _ \<Rightarrow> m) es d k \<noteq> None"
    if "d k \<noteq> None" for es :: "(string \<times> js_value) list" and d :: "string \<rightharpoonup> int"
    using that by (induction es arbitrary: d) (auto split: js_value.splits)
  then show "d k \<noteq> None \<Longrightarrow> assign_levels d v k \<noteq> None"
    by (simp add: assign_levels_def)
qed

lemma array_includes_iff: "array_includes xs v = (\<exists>s\<in>set xs. v = JStr s)"
  by (cases v) (auto simp: array_includes_def)

lemma validate_listed_ok:
  "(validate_listed what plural valid v = Inr ()) = (v = JUndefined \<or> (\<exists>s\<in>set valid. v = JStr s))"
  by (auto simp: validate_listed_def array_includes_iff split: sum.splits)

text \<open>The last fallback of \<^verbatim>\<open>fail_safe\<close>, in general.\<close>

lemma replace_all_same: "replace_all c [c] s = s"
  by (induction s) (simp_all add: replace_all_def)

lemma fail_safe_last_resort:
  assumes sel: "formatters lg (o_format lg) = Some f"
    and bad: "f e = Inl err \<or> (\<exists>v. f e = Inr v \<and> typeof v \<noteq> ''string'' \<and>
           err = JsError (''Formatter returned '' @ typeof v @ '' instead of string''))"
    and js: "call_formatter (formatters lg ''json'') ''this.formatters.json''
           (with_formatterError (''Formatter failed: '' @ error_message err) e) = Inl e2"
  shows \<open>fail_safe lg e =
           JStr (''{"level":"'' @ e_level e @ ''","msg":"'' @ e_msg e @
                 ''","formatterError":"Formatter failed: '' @ error_message err @ ''"}'')\<close>
proof -
  have attempt: "(case call_formatter (Some f) ''formatter'' e of
                    Inl e \<Rightarrow> Inl e
                  | Inr formattedLog \<Rightarrow>
                      if typeof formattedLog \<noteq> ''string''
                      then Inl (JsError (''Formatter returned '' @ typeof formattedLog @
                                         '' instead of string''))
                      else Inr formattedLog) = Inl err"
    using bad by (auto simp: call_formatter_def)
  show ?thesis
    unfolding fail_safe_def Let_def sel option.case attempt sum.case js replace_all_same ..
qed

text \<open>What converts, and the callbacks that never throw.\<close>

lemma collect_map_Inr: "collect (map (\<lambda>x. Inr (f x)) xs) = Inr (map f xs)"
  by (induction xs) simp_all

lemma collect_Cons:
  "collect (r # rs) =
     (case r of Inl e \<Rightarrow> Inl e
      | Inr x \<Rightarrow> (case collect rs of Inl e \<Rightarrow> Inl e | Inr xs \<Rightarrow> Inr (x # xs)))"
  by (cases r) simp_all

lemma to_string_primitive:
  "typeof v \<noteq> ''object'' \<Longrightarrow> to_string v = Inr (string_text v)"
  by (cases v) (simp_all add: to_string_def)

lemma trailing_is_fmt_s: "trailing_display v = Inr (fmt_s v)"
  by (cases v) (simp_all add: to_string_def split: sum.splits)

lemma plain_display_total: "\<exists>s. plain_display v = Inr s"
  by (cases v) (simp_all add: plain_display_def to_string_def)

text \<open>The replacer callback against the positional description of the interpolator.\<close>

lemma consuming_Cons: "consuming (s # ss) = (if is_spec s then Suc (consuming ss) else consuming ss)"
  by (simp add: consuming_def)

lemma piece_Lit_0: "piece nt args i (Lit c # ss) 0 = Inr [c]"
  by (simp add: piece_def)

lemma piece_Suc_nonspec:
  "\<not> is_spec s \<Longrightarrow> piece nt args i (s # ss) (Suc k) = piece nt args i ss k"
  by (simp add: piece_def consuming_Cons split: segment.splits)

lemma piece_Suc_spec:
  "is_spec s \<Longrightarrow> piece nt args i (s # ss) (Suc k) = piece nt args (Suc i) ss k"
  by (simp add: piece_def consuming_Cons split: segment.splits)

lemma piece_saturated:
  "length args \<le> i \<Longrightarrow> length args \<le> j \<Longrightarrow> piece nt args i ss k = piece nt args j ss k"
  by (simp add: piece_def split: segment.splits)

lemma replace_fn_pieces:
  "i \<le> length args \<Longrightarrow>
   replace_fn (replacer nt (if length args = 0 then ''%%'' else ''%'') args) ss i =
     (case collect (map (piece nt args i ss) [0..<length ss]) of
        Inl e \<Rightarrow> Inl e
      | Inr ps \<Rightarrow> Inr (concat ps, min (length args) (i + consuming ss)))"
proof (induction ss arbitrary: i)
  case Nil
  then show ?case by (simp add: consuming_def)
next
  case (Cons s ss)
  let ?cb = "replacer nt (if length args = 0 then ''%%'' else ''%'') args"
  have shift: "map (piece nt args i (s # ss)) [0..<length (s # ss)] =
      piece nt args i (s # ss) 0 # map (\<lambda>k. piece nt args i (s # ss) (Suc k)) [0..<length ss]"
    by (simp add: map_upt_Suc del: upt_Suc)
  show ?case
  proof (cases s)
    case (Lit c)
    then have "\<not> is_spec s" by simp
    with Cons Lit shift show ?thesis
      by (simp add: piece_Suc_nonspec piece_Lit_0 consuming_Cons del: upt_Suc split: sum.splits)
  next
    case (Match m)
    show ?thesis
    proof (cases "m = ''%%''")
      case True
      then have ns: "\<not> is_spec s" using Match by simp
      have p0: "piece nt args i (s # ss) 0 = Inr (if args = [] then ''%%'' else ''%'')"
        using Match True by (simp add: piece_def)
      have cb: "?cb m i = Inr (if args = [] then ''%%'' else ''%'', i)"
        using True by (simp add: replacer_def)
      show ?thesis
        using Cons.IH [OF Cons.prems] Match ns p0 cb shift
        by (simp add: piece_Suc_nonspec consuming_Cons del: upt_Suc split: sum.splits)
    next
      case False
      then have sp: "is_spec s" using Match by simp
      show ?thesis
      proof (cases "i < length args")
        case True
        have le: "Suc i \<le> length args" using True by simp
        show ?thesis
        proof (cases "render nt m (args ! i)")
          case (Inl e)
          have p0: "piece nt args i (s # ss) 0 = Inl e"
            using Match False True Inl by (simp add: piece_def consuming_def)
          have cb: "?cb m i = Inl e"
            using False True Inl by (simp add: replacer_def)
          show ?thesis
            using Match p0 cb shift by (simp del: upt_Suc)
        next
          case (Inr r)
          have p0: "piece nt args i (s # ss) 0 = Inr r"
            using Match False True Inr by (simp add: piece_def consuming_def)
          have cb: "?cb m i = Inr (r, Suc i)"
            using False True Inr by (simp add: replacer_def)
          show ?thesis
            using Cons.IH [OF le] Match sp p0 cb shift
            by (simp add: piece_Suc_spec consuming_Cons del: upt_Suc split: sum.splits)
        qed
      next
        case False2: False
        then have eq: "i = length args" using Cons.prems by simp
        have p0: "piece nt args i (s # ss) 0 = Inr m"
          using Match False False2 by (simp add: piece_def consuming_def)
        have cb: "?cb m i = Inr (m, i)"
          using False False2 by (simp add: replacer_def)
        have sat: "piece nt args (Suc (length args)) ss = piece nt args (length args) ss"
          by (rule ext, rule piece_saturated) simp_all
        show ?thesis
          using Cons.IH [OF Cons.prems] Match sp p0 cb shift eq
          by (simp add: piece_Suc_spec sat consuming_Cons del: upt_Suc split: sum.splits)
      qed
    qed
  qed
qed

lemma format_template:
  "format nt (JStr t) args =
     (case collect (map (piece nt args 0 (regex_scan t)) [0..<length (regex_scan t)]) of
        Inl e \<Rightarrow> Inl e
      | Inr ps \<Rightarrow>
          Inr (concat ps @
               (if consuming (regex_scan t) < length args
                then '' '' @ join '' '' (map fmt_s (drop (consuming (regex_scan t)) args))
                else [])))"
proof -
  have r: "replace_fn (replacer nt (if length args = 0 then ''%%'' else ''%'') args) (regex_scan t) 0 =
     (case collect (map (piece nt args 0 (regex_scan t)) [0..<length (regex_scan t)]) of
        Inl e \<Rightarrow> Inl e
      | Inr ps \<Rightarrow> Inr (concat ps, min (length args) (consuming (regex_scan t))))"
    using replace_fn_pieces [of 0 args nt "regex_scan t"] by (simp split: sum.splits)
  have tr: "\<And>xs. collect (map trailing_display xs) = Inr (map fmt_s xs)"
  proof -
    fix xs show "collect (map trailing_display xs) = Inr (map fmt_s xs)"
      by (induction xs) (simp_all add: trailing_is_fmt_s)
  qed
  show ?thesis
  proof (cases "consuming (regex_scan t) < length args")
    case True
    then have "min (length args) (consuming (regex_scan t)) = consuming (regex_scan t)" by simp
    with True r show ?thesis by (simp add: format_def Let_def tr split: sum.splits)
  next
    case False
    then have "min (length args) (consuming (regex_scan t)) = length args" by simp
    with False r show ?thesis by (simp add: format_def Let_def split: sum.splits)
  qed
qed

lemma replace_fn_no_args:
  "replace_fn (replacer nt ''%%'' []) ss i =
     Inr (concat (map (\<lambda>s. case s of Lit c \<Rightarrow> [c] | Match m \<Rightarrow> m) ss), i)"
proof (induction ss)
  case Nil
  show ?case by simp
next
  case (Cons s ss)
  then show ?case by (cases s) (simp_all add: replacer_def)
qed

lemma regex_scan_concat:
  "concat (map (\<lambda>s. case s of Lit c \<Rightarrow> [c] | Match m \<Rightarrow> m) (regex_scan t)) = t"
  by (induction t rule: regex_scan.induct) simp_all

lemma format_no_args: "format nt (JStr t) [] = Inr t"
  by (simp add: format_def replace_fn_no_args regex_scan_concat)

lemma consuming_take_Suc:
  "k < length ss \<Longrightarrow>
   consuming (take (Suc k) ss) = consuming (take k ss) + (if is_spec (ss ! k) then 1 else 0)"
  by (simp add: consuming_def take_Suc_conv_app_nth)

lemma scan_sample: "regex_scan ''%%%s%d'' = [Match ''%%'', Match ''%s'', Match ''%d'']"
  by simp

text \<open>The bracket and brace forms and their \<^verbatim>\<open>catch\<close> branches.\<close>

lemma entry_text_eq:
  "entry_text kv = (if unconvertible (snd kv) then Inl type_error else Inr (brace_entry kv))"
  by (cases "snd kv") (simp_all add: entry_text_def brace_entry_def to_string_def)

lemma collect_entry_text:
  "collect (map entry_text es) =
     (if list_ex (\<lambda>kv. unconvertible (snd kv)) es then Inl type_error
      else Inr (map brace_entry es))"
proof (induction es)
  case Nil
  show ?case by simp
next
  case (Cons kv es)
  then show ?case by (simp add: entry_text_eq)
qed

lemma array_join_eq:
  "array_join sep xs =
     (if list_ex unconvertible xs then Inl type_error
      else Inr (join sep (map element_text xs)))"
proof -
  have "(\<lambda>x. if x = JNull \<or> x = JUndefined then [] else string_text x) = element_text"
    by (rule ext) (simp add: element_text_def)
  then show ?thesis by (simp add: array_join_def)
qed

text \<open>When \<^verbatim>\<open>format\<close> returns, and what the gate of \<^verbatim>\<open>log\<close> decides.\<close>

lemma render_returns: "\<not> unconvertible a \<Longrightarrow> \<exists>s. render nt m a = Inr s"
  by (simp add: render_def fmt_num_def)

lemma collect_returns:
  "(\<And>x. x \<in> set xs \<Longrightarrow> \<exists>y. f x = Inr y) \<Longrightarrow> \<exists>ys. collect (map f xs) = Inr ys"
proof (induction xs)
  case Nil
  show ?case by simp
next
  case (Cons x xs)
  then obtain y where y: "f x = Inr y" by auto
  from Cons obtain ys where "collect (map f xs) = Inr ys" by auto
  with y show ?case by simp
qed

lemma piece_returns:
  assumes "list_all (\<lambda>a. \<not> unconvertible a) args"
  shows "\<exists>s. piece nt args i ss k = Inr s"
proof -
  have "\<exists>s. render nt m (args ! j) = Inr s" if "j < length args" for m j
    using assms that by (intro render_returns) (simp add: list_all_length)
  then show ?thesis by (simp add: piece_def split: segment.splits)
qed

lemma format_returns:
  assumes "list_all (\<lambda>a. \<not> unconvertible a) args"
  shows "\<exists>s. format nt f args = Inr s"
proof (cases "typeof f = ''string''")
  case True
  then obtain t where f: "f = JStr t" by (cases f) simp_all
  obtain ps where "collect (map (piece nt args 0 (regex_scan t)) [0..<length (regex_scan t)]) = Inr ps"
    using collect_returns [of "[0..<length (regex_scan t)]" "piece nt args 0 (regex_scan t)"]
      piece_returns [OF assms] by blast
  then show ?thesis unfolding f format_template by simp
next
  case False
  obtain ss where "collect (map plain_display (f # args)) = Inr ss"
    using collect_returns [of "f # args" plain_display] plain_display_total by blast
  with False show ?thesis by (cases f) (simp_all add: format_def)
qed

lemma log_gate:
  assumes "o_levels lg L = Some r" and "o_levels lg (o_level lg) = Some c"
  shows "r > c \<Longrightarrow> log lg w ev L m args = (None, lg, w)"
    and "r \<le> c \<Longrightarrow> fst (log lg w ev L m args) = None \<Longrightarrow>
           \<exists>line. stdout (snd (snd (log lg w ev L m args))) = stdout w @ [line]"
    and "r \<le> c \<Longrightarrow> fst (log lg w ev L m args) \<noteq> None \<Longrightarrow>
           stdout (snd (snd (log lg w ev L m args))) = stdout w"
proof -
  show "r > c \<Longrightarrow> log lg w ev L m args = (None, lg, w)"
    using assms by (simp add: log_def)
  assume le: "r \<le> c"
  then have pass: "\<not> js_gt (o_levels lg L) (o_levels lg (o_level lg))" using assms by simp
  note cs = caller_step_stdout [of lg w ev L]
  show "fst (log lg w ev L m args) = None \<Longrightarrow>
           \<exists>line. stdout (snd (snd (log lg w ev L m args))) = stdout w @ [line]"
    unfolding log_passed [OF pass]
    using cs write_log_written(1) by (fastforce split: sum.splits)
  show "fst (log lg w ev L m args) \<noteq> None \<Longrightarrow>
           stdout (snd (snd (log lg w ev L m args))) = stdout w"
    unfolding log_passed [OF pass]
    using cs by (auto split: sum.splits)
qed

subsection \<open>The level accessor\<close>

text \<open>
  Claim C9. Called with no argument, \<^verbatim>\<open>level\<close> returns the current level name and leaves the
  logger as it was. Called with a level name, it looks the name up in the logger's own level
  table (the merged one): a name that the table holds becomes the current level and is
  returned; for a name that the table lacks the call throws
  \<^verbatim>\<open>Error("Invalid log level: <name>")\<close> and the logger, its current level included, is
  unchanged.
\<close>

theorem level_accessor:
  "level lg [] = (Inr (o_level lg), lg) \<and>
   (o_levels lg n \<noteq> None \<longrightarrow> level lg [Some n] = (Inr n, lg\<lparr>o_level := n\<rparr>)) \<and>
   (o_levels lg n = None \<longrightarrow>
      level lg [Some n] = (Inl (JsError (''Invalid log level: '' @ n)), lg))"
  by (simp add: level_def)

theorem level_accessor_witness:
  "(case new_Logger False no_options of
      Inl e \<Rightarrow> False
    | Inr lg \<Rightarrow>
        o_levels lg ''debug'' \<noteq> None \<and>
        level lg [Some ''debug''] = (Inr ''debug'', lg\<lparr>o_level := ''debug''\<rparr>) \<and>
        o_levels lg ''verbose'' = None \<and>
        level lg [Some ''verbose''] = (Inl (JsError ''Invalid log level: verbose''), lg) \<and>
        level lg [] = (Inr ''info'', lg))"
proof -
  obtain lg where lg: "new_Logger False no_options = Inr lg"
    by (simp add: new_Logger_default)
  have d: "o_levels lg ''debug'' \<noteq> None" and v: "o_levels lg ''verbose'' = None"
    and i: "o_level lg = ''info''"
    using lg by (auto simp: new_Logger_default defaultLevels_def)
  show ?thesis
    using level_accessor [of lg "''debug''"] level_accessor [of lg "''verbose''"] lg d v i
    by simp
qed

subsection \<open>The stack-trace hook\<close>

text \<open>
  Claim C10. \<^verbatim>\<open>getCallerInfo\<close> leaves \<^verbatim>\<open>Error.prepareStackTrace\<close> at the value it had when
  the call began, whether the stack inspection succeeded or threw; hence so does every call
  of \<^verbatim>\<open>log\<close>, whether it returns or throws.
\<close>

theorem caller_lookup_restores_hook:
  "prepareStackTrace (snd (snd (getCallerInfo lg w st))) = prepareStackTrace w \<and>
   prepareStackTrace (snd (snd (log lg w ev L m args))) = prepareStackTrace w"
  by (simp add: getCallerInfo_def log_def caller_step_def write_log_def console_log_def
      console_error_def Let_def split: sum.splits prod.splits)

subsection \<open>The gate\<close>

text \<open>
  Claim C2. A call whose level ranks above the current level returns with the logger and the
  process state as they were, and a passing call that returns has made exactly one
  \<^verbatim>\<open>console.log\<close> call (lemma \<open>log_gate\<close>). But a passing call need not return: the numeric
  specifiers convert their argument with \<^verbatim>\<open>Number\<close> outside every \<^verbatim>\<open>try\<close>, unlike the \<^verbatim>\<open>%s\<close>
  and \<^verbatim>\<open>%j\<close> cases beside them, and \<^verbatim>\<open>log\<close> calls \<^verbatim>\<open>format\<close> outside its own \<^verbatim>\<open>try\<close>. On
  the default logger, \<^verbatim>\<open>info("n=%d", {toString: "x"})\<close> passes the gate, throws a \<^verbatim>\<open>TypeError\<close>
  and writes nothing.
\<close>

theorem gate_interpolation_throws:
  "(case new_Logger False no_options of
      Inl e \<Rightarrow> False
    | Inr lg \<Rightarrow>
        o_levels lg ''info'' = Some 2 \<and> o_levels lg (o_level lg) = Some 2 \<and>
        info lg empty_world sample_env (JStr ''n=%d'') [unconvertible_object] =
          (Some type_error, lg, empty_world))"
  by (simp add: new_Logger_default info_def log_def defaultLevels_def caller_step_def
      shouldIncludeCaller_def build_entry_def format_def replacer_def render_def fmt_num_def
      unconvertible_object_def Let_def)

subsection \<open>Caller information\<close>

text \<open>
  Claim C3. For an emit call that passes the gate (rank \<open>r\<close> of its level at most the rank
  \<open>cur\<close> of the current level), \<^verbatim>\<open>log\<close> hands to the formatter the entry \<open>log_record\<close>, which
  is built exactly when \<^verbatim>\<open>format\<close> returns. The entry carries \<^verbatim>\<open>callerFile\<close> and
  \<^verbatim>\<open>callerLine\<close>, as \<^verbatim>\<open>getCallerInfo\<close> returned them, exactly when \<open>r\<close> is at most the rank \<open>c\<close>
  of \<^verbatim>\<open>callerLevel\<close>; otherwise it carries neither and no stack is captured. A logger
  constructed without a \<^verbatim>\<open>callerLevel\<close> option, whose \<^verbatim>\<open>levels\<close> option leaves the four emitting
  levels alone, attaches caller information to \<^verbatim>\<open>error\<close> and \<^verbatim>\<open>warn\<close> calls and not to
  \<^verbatim>\<open>info\<close> and \<^verbatim>\<open>debug\<close> calls.
\<close>

theorem caller_attachment:
  "(o_levels lg L = Some r \<and> o_levels lg (o_level lg) = Some cur \<and>
    o_levels lg (o_callerLevel lg) = Some c \<and> r \<le> cur \<longrightarrow>
      log lg w ev L m args =
        (case log_record lg w ev L m args of
           Inl e \<Rightarrow> (Some e, snd (caller_step lg w ev L))
         | Inr entry \<Rightarrow>
             (case write_log lg L (fail_safe lg entry) (snd (snd (caller_step lg w ev L))) of
                Inl e \<Rightarrow> (Some e, snd (caller_step lg w ev L))
              | Inr w'' \<Rightarrow> (None, fst (snd (caller_step lg w ev L)), w''))) \<and>
      (\<exists>entry. log_record lg w ev L m args = Inr entry) =
        (\<exists>s. format (number_text ev) m args = Inr s) \<and>
      (log_record lg w ev L m args = Inr entry \<and> r \<le> c \<longrightarrow>
         e_callerFile entry = Some (fst (fst (getCallerInfo lg w (stack ev)))) \<and>
         e_callerLine entry = Some (snd (fst (getCallerInfo lg w (stack ev))))) \<and>
      (log_record lg w ev L m args = Inr entry \<and> \<not> r \<le> c \<longrightarrow>
         e_callerFile entry = None \<and> e_callerLine entry = None) \<and>
      (\<not> r \<le> c \<longrightarrow> stack_reads (snd (snd (log lg w ev L m args))) = stack_reads w)) \<and>
   (new_Logger t options = Inr lg0 \<and> opt_callerLevel options = JUndefined \<and>
    list_all (\<lambda>k. k \<notin> fst ` set (source_entries (opt_levels options)))
      [''error'', ''warn'', ''info'', ''debug''] \<longrightarrow>
      shouldIncludeCaller lg0 ''error'' \<and> shouldIncludeCaller lg0 ''warn'' \<and>
      \<not> shouldIncludeCaller lg0 ''info'' \<and> \<not> shouldIncludeCaller lg0 ''debug'')"
proof (intro conjI impI)
  assume a: "o_levels lg L = Some r \<and> o_levels lg (o_level lg) = Some cur \<and>
    o_levels lg (o_callerLevel lg) = Some c \<and> r \<le> cur"
  then have pass: "\<not> js_gt (o_levels lg L) (o_levels lg (o_level lg))" by simp
  show "log lg w ev L m args =
        (case log_record lg w ev L m args of
           Inl e \<Rightarrow> (Some e, snd (caller_step lg w ev L))
         | Inr entry \<Rightarrow>
             (case write_log lg L (fail_safe lg entry) (snd (snd (caller_step lg w ev L))) of
                Inl e \<Rightarrow> (Some e, snd (caller_step lg w ev L))
              | Inr w'' \<Rightarrow> (None, fst (snd (caller_step lg w ev L)), w'')))"
    by (rule log_passed [OF pass])
  show "(\<exists>entry. log_record lg w ev L m args = Inr entry) =
        (\<exists>s. format (number_text ev) m args = Inr s)"
    by (auto simp: log_record_def build_entry_def Let_def split: sum.splits option.splits prod.splits)
  {
    assume b: "log_record lg w ev L m args = Inr entry \<and> r \<le> c"
    with a have inc: "shouldIncludeCaller lg L" by (simp add: shouldIncludeCaller_def)
    with b show "e_callerFile entry = Some (fst (fst (getCallerInfo lg w (stack ev))))"
      by (auto simp: log_record_def build_entry_def caller_step_def Let_def
          split: prod.splits sum.splits)
    from inc b show "e_callerLine entry = Some (snd (fst (getCallerInfo lg w (stack ev))))"
      by (auto simp: log_record_def build_entry_def caller_step_def Let_def
          split: prod.splits sum.splits)
  }
  {
    assume b: "log_record lg w ev L m args = Inr entry \<and> \<not> r \<le> c"
    with a have inc: "\<not> shouldIncludeCaller lg L" by (simp add: shouldIncludeCaller_def)
    with b show "e_callerFile entry = None"
      by (auto simp: log_record_def build_entry_def caller_step_def Let_def split: sum.splits)
    from inc b show "e_callerLine entry = None"
      by (auto simp: log_record_def build_entry_def caller_step_def Let_def split: sum.splits)
  }
  {
    assume "\<not> r \<le> c"
    with a have inc: "\<not> shouldIncludeCaller lg L" by (simp add: shouldIncludeCaller_def)
    then have cs: "caller_step lg w ev L = (None, lg, w)" by (simp add: caller_step_def)
    show "stack_reads (snd (snd (log lg w ev L m args))) = stack_reads w"
      unfolding log_passed [OF pass] cs
      using write_log_written(2) by (auto split: sum.splits)
  }
next
  assume b: "new_Logger t options = Inr lg0 \<and> opt_callerLevel options = JUndefined \<and>
    list_all (\<lambda>k. k \<notin> fst ` set (source_entries (opt_levels options)))
      [''error'', ''warn'', ''info'', ''debug'']"
  then have cl: "o_callerLevel lg0 = ''warn''"
    and lv: "o_levels lg0 = assign_levels defaultLevels (opt_levels options)"
    by (auto simp: new_Logger_def or_default_def split: sum.splits)
  from b have "o_levels lg0 ''error'' = Some 0" "o_levels lg0 ''warn'' = Some 1"
    "o_levels lg0 ''info'' = Some 2" "o_levels lg0 ''debug'' = Some 3"
    unfolding lv by (simp_all add: assign_levels_other defaultLevels_def)
  with cl show "shouldIncludeCaller lg0 ''error''" "shouldIncludeCaller lg0 ''warn''"
    "\<not> shouldIncludeCaller lg0 ''info''" "\<not> shouldIncludeCaller lg0 ''debug''"
    by (simp_all add: shouldIncludeCaller_def)
qed

theorem caller_attachment_witness:
  "(case new_Logger False (no_options\<lparr>opt_level := JStr ''debug'',
                                      opt_levels := JObj [(''trace'', JNum 4)]\<rparr>) of
      Inl e \<Rightarrow> False
    | Inr lg \<Rightarrow>
        o_levels lg ''error'' = Some 0 \<and> o_levels lg ''info'' = Some 2 \<and>
        o_levels lg (o_level lg) = Some 3 \<and>
        o_levels lg (o_callerLevel lg) = Some 1 \<and>
        (case log_record lg empty_world sample_env ''error'' (JStr ''disk full'') [] of
           Inl e \<Rightarrow> False
         | Inr entry \<Rightarrow> e_callerFile entry = Some ''app.ts'' \<and> e_callerLine entry = Some 12) \<and>
        (case log_record lg empty_world sample_env ''info'' (JStr ''started'') [] of
           Inl e \<Rightarrow> False
         | Inr entry \<Rightarrow> e_callerFile entry = None \<and> e_callerLine entry = None) \<and>
        shouldIncludeCaller lg ''warn'' \<and> \<not> shouldIncludeCaller lg ''debug'')"
proof -
  let ?opts = "no_options\<lparr>opt_level := JStr ''debug'', opt_levels := JObj [(''trace'', JNum 4)]\<rparr>"
  obtain lg where lg: "new_Logger False ?opts = Inr lg"
    by (simp add: new_Logger_def validate_defs no_options_def array_includes_def
        validLevels_def object_entries_def)
  have r: "o_levels lg ''error'' = Some 0" "o_levels lg ''info'' = Some 2"
    "o_levels lg (o_level lg) = Some 3" "o_levels lg (o_callerLevel lg) = Some 1"
    using lg
    by (auto simp: new_Logger_def validate_defs no_options_def array_includes_def
        validLevels_def object_entries_def or_default_def assign_levels_def source_entries_def
        defaultLevels_def)
  have o: "opt_callerLevel ?opts = JUndefined"
    "list_all (\<lambda>k. k \<notin> fst ` set (source_entries (opt_levels ?opts)))
      [''error'', ''warn'', ''info'', ''debug'']"
    by (simp_all add: no_options_def source_entries_def object_entries_def)
  have "\<exists>e. log_record lg empty_world sample_env ''error'' (JStr ''disk full'') [] = Inr e"
    by (cases "fst (caller_step lg empty_world sample_env ''error'')")
      (auto simp: log_record_def build_entry_def format_no_args Let_def)
  then obtain e1 where
    e1: "log_record lg empty_world sample_env ''error'' (JStr ''disk full'') [] = Inr e1" ..
  have "\<exists>e. log_record lg empty_world sample_env ''info'' (JStr ''started'') [] = Inr e"
    by (cases "fst (caller_step lg empty_world sample_env ''info'')")
      (auto simp: log_record_def build_entry_def format_no_args Let_def)
  then obtain e2 where
    e2: "log_record lg empty_world sample_env ''info'' (JStr ''started'') [] = Inr e2" ..
  show ?thesis
    using caller_attachment [of lg "''error''" 0 3 1 empty_world sample_env "JStr ''disk full''" "[]"
        e1 False ?opts lg]
      caller_attachment [of lg "''info''" 2 3 1 empty_world sample_env "JStr ''started''" "[]"
        e2 False ?opts lg]
      lg r o e1 e2 sample_caller [of lg empty_world]
    by simp
qed


subsection \<open>Repeated caller-lookup failures\<close>

text \<open>
  Claim C8. A run of consecutive failing lookups on a logger whose failure counter is zero
  (as the constructor leaves it, and as any successful lookup leaves it) and whose ceiling is
  the constructor's 5 reports one \<^verbatim>\<open>Error retrieving caller info:\<close> diagnostic for each of the
  first five failures, the suppression notice once, right after the fifth, and nothing for
  the sixth and later failures; the counter equals the length of the run. A successful lookup
  reports nothing and sets the counter to zero; no lookup changes the ceiling.
\<close>

theorem caller_failure_reporting:
  "(callerErrorCount lg = 0 \<and> maxCallerErrors lg = 5 \<and> list_all lookup_fails sts \<longrightarrow>
      stderr (snd (lookups lg w sts)) =
        stderr w @ map failure_report (take 5 sts) @
        (if 5 \<le> length sts then [suppression_notice] else []) \<and>
      callerErrorCount (fst (lookups lg w sts)) = length sts) \<and>
   (\<not> lookup_fails st \<longrightarrow>
      callerErrorCount (fst (snd (getCallerInfo lg w st))) = 0 \<and>
      stderr (snd (snd (getCallerInfo lg w st))) = stderr w) \<and>
   maxCallerErrors (fst (snd (getCallerInfo lg w st))) = maxCallerErrors lg \<and>
   (new_Logger t options = Inr lg0 \<longrightarrow> callerErrorCount lg0 = 0 \<and> maxCallerErrors lg0 = 5)"
proof (intro conjI impI)
  assume a: "callerErrorCount lg = 0 \<and> maxCallerErrors lg = 5 \<and> list_all lookup_fails sts"
  then have l: "list_all lookup_fails sts" and m: "maxCallerErrors lg = 5"
    and z: "callerErrorCount lg = 0" by simp_all
  from lookups_failures [OF l m, of w] z
  show "stderr (snd (lookups lg w sts)) =
        stderr w @ map failure_report (take 5 sts) @
        (if 5 \<le> length sts then [suppression_notice] else [])"
    and "callerErrorCount (fst (lookups lg w sts)) = length sts"
    by simp_all
next
  assume "\<not> lookup_fails st"
  then show "callerErrorCount (fst (snd (getCallerInfo lg w st))) = 0"
    and "stderr (snd (snd (getCallerInfo lg w st))) = stderr w"
    by (simp_all add: lookup_fails_def getCallerInfo_def Let_def split: sum.splits)
next
  show "maxCallerErrors (fst (snd (getCallerInfo lg w st))) = maxCallerErrors lg"
    by (simp add: getCallerInfo_def Let_def split: sum.splits)
next
  assume "new_Logger t options = Inr lg0"
  then show "callerErrorCount lg0 = 0" and "maxCallerErrors lg0 = 5"
    by (auto simp: new_Logger_def split: sum.splits)
qed

theorem caller_failure_reporting_witness:
  "(case new_Logger False no_options of
      Inl e \<Rightarrow> False
    | Inr lg \<Rightarrow>
        callerErrorCount lg = 0 \<and> maxCallerErrors lg = 5 \<and>
        list_all lookup_fails
          [NoCallSites, CallSites [], NoCallSites, NoCallSites, NoCallSites, CallSites [],
           NoCallSites] \<and>
        stderr (snd (lookups lg empty_world
          [NoCallSites, CallSites [], NoCallSites, NoCallSites, NoCallSites, CallSites [],
           NoCallSites])) =
          [(''Error retrieving caller info:'', Some (JsError ''stack.shift is not a function'')),
           (''Error retrieving caller info:'', Some (JsError ''Cannot read properties of undefined'')),
           (''Error retrieving caller info:'', Some (JsError ''stack.shift is not a function'')),
           (''Error retrieving caller info:'', Some (JsError ''stack.shift is not a function'')),
           (''Error retrieving caller info:'', Some (JsError ''stack.shift is not a function'')),
           (''Caller detection failed 5 times. Suppressing further caller error messages.'', None)] \<and>
        \<not> lookup_fails (stack sample_env) \<and>
        callerErrorCount (fst (snd (getCallerInfo (lg\<lparr>callerErrorCount := 7\<rparr>) empty_world
          (stack sample_env)))) = 0)"
proof -
  obtain lg where lg: "new_Logger False no_options = Inr lg"
    by (simp add: new_Logger_default)
  let ?sts = "[NoCallSites, CallSites [], NoCallSites, NoCallSites, NoCallSites, CallSites [],
           NoCallSites]"
  have f: "list_all lookup_fails ?sts"
    by (simp add: lookup_fails_def inspect_stack_def)
  have s: "\<not> lookup_fails (stack sample_env)"
    by (simp add: lookup_fails_def inspect_stack_def sample_env_def)
  show ?thesis
    using caller_failure_reporting [of lg ?sts empty_world "stack sample_env" False no_options lg]
      caller_failure_reporting [of "lg\<lparr>callerErrorCount := 7\<rparr>" "[]" empty_world
        "stack sample_env" False no_options lg]
      lg f s default_logger_ranks(4,5) [OF lg]
    by (simp add: failure_report_def suppression_notice_def inspect_stack_def empty_world_def)
qed

subsection \<open>Validation of the \<^verbatim>\<open>levels\<close> option\<close>

text \<open>
  Claim C6, as the specification states it, fails: \<^verbatim>\<open>validateOptions\<close> checks every entry of
  the supplied mapping and makes no exception for \<^verbatim>\<open>silent\<close>, so that
  \<^verbatim>\<open>new Logger({levels: {silent: -1}})\<close> throws.
\<close>

theorem silent_rank_counterexample:
  "new_Logger False (no_options\<lparr>opt_levels := JObj [(''silent'', JNum (- 1))]\<rparr>) =
     Inl (JsError ''Level value for 'silent' must be a non-negative integer'')"
  by (simp add: new_Logger_def validate_defs no_options_def object_entries_def)

text \<open>
  Claim C6, amended. When the other options are valid, construction with a \<^verbatim>\<open>levels\<close> object
  succeeds exactly when every supplied rank, that of \<^verbatim>\<open>silent\<close> included, is a non-negative
  integer; a \<^verbatim>\<open>levels\<close> option that maps \<^verbatim>\<open>silent\<close> to \<^verbatim>\<open>-1\<close> makes construction fail.
\<close>

theorem levels_validation:
  "(validateOptions (options\<lparr>opt_levels := JUndefined\<rparr>) = Inr () \<longrightarrow>
      (\<exists>lg. new_Logger t (options\<lparr>opt_levels := JObj es\<rparr>) = Inr lg) =
      (\<forall>kv\<in>set es. \<exists>n. snd kv = JNum n \<and> 0 \<le> n)) \<and>
   ((''silent'', JNum (- 1)) \<in> set es \<longrightarrow>
      (\<exists>e. new_Logger t (options\<lparr>opt_levels := JObj es\<rparr>) = Inl e))"
proof (intro conjI impI)
  assume "validateOptions (options\<lparr>opt_levels := JUndefined\<rparr>) = Inr ()"
  then show "(\<exists>lg. new_Logger t (options\<lparr>opt_levels := JObj es\<rparr>) = Inr lg) =
      (\<forall>kv\<in>set es. \<exists>n. snd kv = JNum n \<and> 0 \<le> n)"
    unfolding new_Logger_ok
    by (simp add: validateOptions_def then_do_ok validate_levels_obj check_levels_ok)
next
  assume "(''silent'', JNum (- 1)) \<in> set es"
  then have "check_levels es \<noteq> Inr ()" by (rule check_levels_silent)
  then have "validateOptions (options\<lparr>opt_levels := JObj es\<rparr>) \<noteq> Inr ()"
    by (simp add: validateOptions_def then_do_ok validate_levels_obj)
  then have "\<not> (\<exists>lg. new_Logger t (options\<lparr>opt_levels := JObj es\<rparr>) = Inr lg)"
    unfolding new_Logger_ok .
  then show "\<exists>e. new_Logger t (options\<lparr>opt_levels := JObj es\<rparr>) = Inl e"
    by (cases "new_Logger t (options\<lparr>opt_levels := JObj es\<rparr>)") auto
qed

theorem levels_validation_witness:
  "validateOptions (no_options\<lparr>opt_levels := JUndefined\<rparr>) = Inr () \<and>
   (\<exists>lg. new_Logger False (no_options\<lparr>opt_levels := JObj [(''custom'', JNum 4)]\<rparr>) = Inr lg) \<and>
   (''silent'', JNum (- 1)) \<in> set [(''custom'', JNum 4), (''silent'', JNum (- 1))] \<and>
   (\<exists>e. new_Logger False
      (no_options\<lparr>opt_levels := JObj [(''custom'', JNum 4), (''silent'', JNum (- 1))]\<rparr>) = Inl e)"
proof -
  have v: "validateOptions (no_options\<lparr>opt_levels := JUndefined\<rparr>) = Inr ()"
    by (simp add: validate_defs no_options_def)
  show ?thesis
    using levels_validation [of no_options False "[(''custom'', JNum 4)]"]
      levels_validation [of no_options False "[(''custom'', JNum 4), (''silent'', JNum (- 1))]"] v
    by simp
qed

subsection \<open>Validation of the \<^verbatim>\<open>level\<close> option\<close>

text \<open>
  Claim C7, as the specification states it, fails: the constructor compares the \<^verbatim>\<open>level\<close>
  option with the five built-in names, not with the merged table, so a custom name is
  rejected although \<^verbatim>\<open>levels\<close> adds it.
\<close>

theorem custom_level_counterexample:
  "new_Logger False (no_options\<lparr>opt_level := JStr ''trace'',
                                  opt_levels := JObj [(''trace'', JNum 4)]\<rparr>) =
     Inl (JsError ''Invalid log level: trace. Valid levels are: silent, error, warn, info, debug'')"
  by (simp add: new_Logger_def validate_defs no_options_def array_includes_def
      validLevels_def to_string_def)

text \<open>
  Claim C7, amended. When the other options are valid, construction succeeds exactly when the
  \<^verbatim>\<open>level\<close> option is absent or is one of \<^verbatim>\<open>silent\<close>, \<^verbatim>\<open>error\<close>, \<^verbatim>\<open>warn\<close>, \<^verbatim>\<open>info\<close>,
  \<^verbatim>\<open>debug\<close>; an accepted name becomes the current level and is a key of the merged level
  table.
\<close>

theorem level_option_validation:
  "(validateOptions (options\<lparr>opt_level := JUndefined\<rparr>) = Inr () \<longrightarrow>
      (\<exists>lg. new_Logger t (options\<lparr>opt_level := v\<rparr>) = Inr lg) =
      (v = JUndefined \<or> (\<exists>s\<in>set [''silent'', ''error'', ''warn'', ''info'', ''debug'']. v = JStr s))) \<and>
   (new_Logger t (options\<lparr>opt_level := JStr s\<rparr>) = Inr lg \<longrightarrow>
      o_level lg = s \<and> o_levels lg s \<noteq> None)"
proof (intro conjI impI)
  assume ok: "validateOptions (options\<lparr>opt_level := JUndefined\<rparr>) = Inr ()"
  then show "(\<exists>lg. new_Logger t (options\<lparr>opt_level := v\<rparr>) = Inr lg) =
      (v = JUndefined \<or> (\<exists>s\<in>set [''silent'', ''error'', ''warn'', ''info'', ''debug'']. v = JStr s))"
    unfolding new_Logger_ok
    by (simp add: validateOptions_def then_do_ok validate_listed_ok validLevels_def)
next
  assume a: "new_Logger t (options\<lparr>opt_level := JStr s\<rparr>) = Inr lg"
  then have v: "validateOptions (options\<lparr>opt_level := JStr s\<rparr>) = Inr ()"
    using new_Logger_ok [of t "options\<lparr>opt_level := JStr s\<rparr>"] by auto
  then have s: "s \<in> set validLevels"
    by (simp add: validateOptions_def then_do_ok validate_listed_ok)
  then have ne: "s \<noteq> []" by (auto simp: validLevels_def)
  from a v have lg: "o_level lg = or_default (JStr s) ''info''"
    and lv: "o_levels lg = assign_levels defaultLevels (opt_levels options)"
    by (auto simp: new_Logger_def)
  from lg ne show "o_level lg = s" by (simp add: or_default_def)
  from s have "defaultLevels s \<noteq> None" by (auto simp: validLevels_def defaultLevels_def)
  then show "o_levels lg s \<noteq> None" unfolding lv by (rule assign_levels_dom)
qed

theorem level_option_validation_witness:
  "validateOptions (no_options\<lparr>opt_levels := JObj [(''trace'', JNum 4)], opt_level := JUndefined\<rparr>) = Inr () \<and>
   (\<exists>lg. new_Logger False
      (no_options\<lparr>opt_levels := JObj [(''trace'', JNum 4)], opt_level := JStr ''debug''\<rparr>) = Inr lg) \<and>
   \<not> (\<exists>lg. new_Logger False
      (no_options\<lparr>opt_levels := JObj [(''trace'', JNum 4)], opt_level := JStr ''trace''\<rparr>) = Inr lg)"
proof -
  let ?o = "no_options\<lparr>opt_levels := JObj [(''trace'', JNum 4)]\<rparr>"
  have v: "validateOptions (?o\<lparr>opt_level := JUndefined\<rparr>) = Inr ()"
    by (simp add: validate_defs no_options_def object_entries_def)
  show ?thesis
    using level_option_validation [of ?o False "JStr ''debug''"]
      level_option_validation [of ?o False "JStr ''trace''"] v
    by simp
qed


subsection \<open>The last fallback of the formatter chain\<close>

text \<open>
  Claim C1. When the selected formatter fails and the JSON formatter called on the entry with
  its \<^verbatim>\<open>formatterError\<close> field fails as well, \<^verbatim>\<open>log\<close> still writes one hand-built string with
  the level, the message and the diagnostic (lemma \<open>fail_safe_last_resort\<close>; the model of this
  step is total). The message, however, is copied as it is: \<^verbatim>\<open>replace(/"/g, '"')\<close> replaces
  every double quote by itself, so the quotes are not escaped. On a logger whose JSON
  formatter has been replaced by one that throws, logging the message \<^verbatim>\<open>say "hi"\<close> at \<^verbatim>\<open>info\<close>
  returns and writes a line in which the quotes of the message stand unescaped.
\<close>

theorem final_fallback_unescaped:
  \<open>(case new_Logger False no_options of
      Inl e \<Rightarrow> False
    | Inr lg \<Rightarrow>
        fst (info (lg\<lparr>formatters := (formatters lg)(''json'' \<mapsto> broken_formatter ''JSON formatter is broken'')\<rparr>)
                  empty_world sample_env (JStr ''say "hi"'') []) = None \<and>
        stdout (snd (snd (info (lg\<lparr>formatters := (formatters lg)(''json'' \<mapsto> broken_formatter ''JSON formatter is broken'')\<rparr>)
                      empty_world sample_env (JStr ''say "hi"'') []))) =
          [JStr ''{"level":"info","msg":"say "hi"","formatterError":"Formatter failed: JSON formatter is broken"}''])\<close>
  by (simp add: new_Logger_default info_def log_def defaultLevels_def caller_step_def
      shouldIncludeCaller_def build_entry_def format_no_args fail_safe_def
      call_formatter_def broken_formatter_def with_formatterError_def write_log_def
      console_log_def sample_env_def empty_world_def Let_def replace_all_def)

subsection \<open>The \<^verbatim>\<open>%%\<close> rule of the interpolator\<close>

text \<open>
  Claim C4. For a string template \<open>t\<close>: with no extra arguments \<^verbatim>\<open>format\<close> returns \<open>t\<close> as it
  is, so every \<^verbatim>\<open>%%\<close> stays two characters. In general \<^verbatim>\<open>format\<close> throws what the first
  throwing segment of the scanned template throws, and otherwise returns the concatenation of
  what each segment contributes, followed by the unconsumed arguments.
  A \<^verbatim>\<open>%%\<close> segment contributes \<^verbatim>\<open>%%\<close> when there are no arguments and a single \<^verbatim>\<open>%\<close> when
  there is at least one, wherever it stands, and it does not advance the argument index. A
  specifier other than \<^verbatim>\<open>%%\<close> that stands after as many consuming specifiers as there are
  arguments contributes its own text; the arguments handed on to the trailing part are those
  beyond the number of consuming specifiers, so such a specifier takes none.
\<close>

theorem percent_rule:
  "format nt (JStr t) [] = Inr t \<and>
   format nt (JStr t) args =
     (case collect (map (piece nt args 0 (regex_scan t)) [0..<length (regex_scan t)]) of
        Inl e \<Rightarrow> Inl e
      | Inr ps \<Rightarrow>
          Inr (concat ps @
               (if consuming (regex_scan t) < length args
                then '' '' @ join '' '' (map fmt_s (drop (consuming (regex_scan t)) args))
                else []))) \<and>
   (k < length (regex_scan t) \<and> regex_scan t ! k = Match ''%%'' \<longrightarrow>
      piece nt args 0 (regex_scan t) k = Inr (if args = [] then ''%%'' else ''%'') \<and>
      consuming (take (Suc k) (regex_scan t)) = consuming (take k (regex_scan t))) \<and>
   (k < length (regex_scan t) \<and> regex_scan t ! k = Match m \<and> m \<noteq> ''%%'' \<and>
    length args \<le> consuming (take k (regex_scan t)) \<longrightarrow>
      piece nt args 0 (regex_scan t) k = Inr m)"
proof (intro conjI impI)
  show "format nt (JStr t) [] = Inr t" by (rule format_no_args)
  show "format nt (JStr t) args =
     (case collect (map (piece nt args 0 (regex_scan t)) [0..<length (regex_scan t)]) of
        Inl e \<Rightarrow> Inl e
      | Inr ps \<Rightarrow>
          Inr (concat ps @
               (if consuming (regex_scan t) < length args
                then '' '' @ join '' '' (map fmt_s (drop (consuming (regex_scan t)) args))
                else [])))" by (rule format_template)
next
  assume a: "k < length (regex_scan t) \<and> regex_scan t ! k = Match ''%%''"
  then show "piece nt args 0 (regex_scan t) k = Inr (if args = [] then ''%%'' else ''%'')"
    by (simp add: piece_def)
  from a show "consuming (take (Suc k) (regex_scan t)) = consuming (take k (regex_scan t))"
    by (simp add: consuming_take_Suc)
next
  assume "k < length (regex_scan t) \<and> regex_scan t ! k = Match m \<and> m \<noteq> ''%%'' \<and>
    length args \<le> consuming (take k (regex_scan t))"
  then show "piece nt args 0 (regex_scan t) k = Inr m"
    by (simp add: piece_def)
qed

theorem percent_rule_witness:
  "format (number_text sample_env) (JStr ''%%%s%d'') [] = Inr ''%%%s%d'' \<and>
   format (number_text sample_env) (JStr ''%%%s%d'') [JStr ''x''] = Inr ''%x%d'' \<and>
   0 < length (regex_scan ''%%%s%d'') \<and> regex_scan ''%%%s%d'' ! 0 = Match ''%%'' \<and>
   piece (number_text sample_env) [JStr ''x''] 0 (regex_scan ''%%%s%d'') 0 = Inr ''%'' \<and>
   2 < length (regex_scan ''%%%s%d'') \<and> regex_scan ''%%%s%d'' ! 2 = Match ''%d'' \<and>
   length [JStr ''x''] \<le> consuming (take 2 (regex_scan ''%%%s%d'')) \<and>
   piece (number_text sample_env) [JStr ''x''] 0 (regex_scan ''%%%s%d'') 2 = Inr ''%d''"
proof -
  have p: "piece (number_text sample_env) [JStr ''x''] 0 (regex_scan ''%%%s%d'') 1 = Inr ''x''"
    unfolding scan_sample by (simp add: piece_def consuming_def render_def to_string_def)
  have c: "consuming (take 2 (regex_scan ''%%%s%d'')) = 1" "consuming (regex_scan ''%%%s%d'') = 2"
    unfolding scan_sample by (simp_all add: consuming_def)
  have u: "[0..<3] = [0, 1, 2]" by (simp add: upt_rec)
  show ?thesis
    using percent_rule [of "number_text sample_env" "''%%%s%d''" "[JStr ''x'']" 0 "''%d''"]
      percent_rule [of "number_text sample_env" "''%%%s%d''" "[JStr ''x'']" 2 "''%d''"] p c
    by (simp add: scan_sample u eval_nat_numeral)
qed


subsection \<open>Display forms\<close>

text \<open>
  Claim C5, as the specification states it, fails for a template that is not a string: there an
  array or a plain object is rendered by \<^verbatim>\<open>JSON.stringify\<close>, not in the bracket and brace forms
  of the \<^verbatim>\<open>%s\<close> case.
\<close>

theorem plain_join_counterexample:
  \<open>format (number_text sample_env) (JArr [JNum 1, JNum 2]) [] = Inr ''[1,2]'' \<and>
   format (number_text sample_env) (JStr ''%s'') [JArr [JNum 1, JNum 2]] = Inr ''[ 1, 2 ]'' \<and>
   format (number_text sample_env) (JObj [(''k'', JStr ''v'')]) [] = Inr ''{"k":"v"}'' \<and>
   format (number_text sample_env) (JStr ''%s'') [JObj [(''k'', JStr ''v'')]] = Inr ''{ k: 'v' }''\<close>
  by code_simp

text \<open>
  Claim C5, amended. When the template is not a string, \<^verbatim>\<open>format\<close> returns the conversions of
  every argument, the template included, joined by single spaces: \<^verbatim>\<open>null\<close> and \<^verbatim>\<open>undefined\<close>
  by name, an array or a plain object as its compact JSON text (as \<^verbatim>\<open>[object Object]\<close> when
  serialisation throws), any other value as its plain string form. After a string template the
  unconsumed arguments are appended, joined by single spaces, under the rules of the \<^verbatim>\<open>%s\<close>
  case, and converting them never throws: \<^verbatim>\<open>null\<close> and \<^verbatim>\<open>undefined\<close> by name, an array in the
  bracket form, a plain object in the brace form with string values in single quotes, an array
  or object as \<^verbatim>\<open>[object Object]\<close> when an element or a value of it cannot be converted to a
  string, any other value as its plain string form.
\<close>

theorem display_forms:
  "(typeof f \<noteq> ''string'' \<longrightarrow>
      (\<exists>ss. collect (map plain_display (f # args)) = Inr ss \<and>
            format nt f args = Inr (join '' '' ss))) \<and>
   plain_display JNull = Inr ''null'' \<and> plain_display JUndefined = Inr ''undefined'' \<and>
   plain_display (JArr xs) =
     Inr (if has_bigint (JArr xs) then ''[object Object]''
          else ''['' @ join '','' (map json_text xs) @ '']'') \<and>
   plain_display (JObj es) =
     Inr (if has_bigint (JObj es) then ''[object Object]'' else json_text (JObj es)) \<and>
   (typeof v \<noteq> ''object'' \<and> v \<noteq> JUndefined \<longrightarrow> plain_display v = Inr (string_text v)) \<and>
   format nt (JStr t) args =
     (case collect (map (piece nt args 0 (regex_scan t)) [0..<length (regex_scan t)]) of
        Inl e \<Rightarrow> Inl e
      | Inr ps \<Rightarrow>
          Inr (concat ps @
               (if consuming (regex_scan t) < length args
                then '' '' @ join '' '' (map fmt_s (drop (consuming (regex_scan t)) args))
                else []))) \<and>
   trailing_display v = Inr (fmt_s v) \<and>
   fmt_s JNull = ''null'' \<and> fmt_s JUndefined = ''undefined'' \<and>
   fmt_s (JArr xs) =
     (if list_ex unconvertible xs then ''[object Object]''
      else ''[ '' @ join '', '' (map element_text xs) @ '' ]'') \<and>
   fmt_s (JObj es) =
     (if list_ex (\<lambda>kv. unconvertible (snd kv)) es then ''[object Object]''
      else ''{ '' @ join '', '' (map brace_entry es) @ '' }'') \<and>
   brace_entry (k, JStr s) = k @ '': '' @ [CHR 0x27] @ s @ [CHR 0x27] \<and>
   (typeof v \<noteq> ''string'' \<longrightarrow> brace_entry (k, v) = k @ '': '' @ string_text v) \<and>
   (typeof v \<noteq> ''object'' \<and> v \<noteq> JUndefined \<longrightarrow> fmt_s v = string_text v)"
proof (intro conjI impI)
  assume ns: "typeof f \<noteq> ''string''"
  obtain ss where ss: "collect (map plain_display (f # args)) = Inr ss"
    using collect_returns [of "f # args" plain_display] plain_display_total by blast
  with ns have "format nt f args = Inr (join '' '' ss)"
    by (cases f) (simp_all add: format_def)
  with ss show "\<exists>ss. collect (map plain_display (f # args)) = Inr ss \<and>
            format nt f args = Inr (join '' '' ss)" by blast
next
  show "format nt (JStr t) args =
     (case collect (map (piece nt args 0 (regex_scan t)) [0..<length (regex_scan t)]) of
        Inl e \<Rightarrow> Inl e
      | Inr ps \<Rightarrow>
          Inr (concat ps @
               (if consuming (regex_scan t) < length args
                then '' '' @ join '' '' (map fmt_s (drop (consuming (regex_scan t)) args))
                else [])))"
    by (rule format_template)
next
  show "trailing_display v = Inr (fmt_s v)" by (rule trailing_is_fmt_s)
next
  assume "typeof v \<noteq> ''object'' \<and> v \<noteq> JUndefined"
  then show "plain_display v = Inr (string_text v)"
    by (cases v) (simp_all add: plain_display_def to_string_def)
next
  assume "typeof v \<noteq> ''object'' \<and> v \<noteq> JUndefined"
  then show "fmt_s v = string_text v" by (cases v) (simp_all add: to_string_def)
next
  assume "typeof v \<noteq> ''string''"
  then show "brace_entry (k, v) = k @ '': '' @ string_text v" by (simp add: brace_entry_def)
next
  show "fmt_s (JArr xs) =
     (if list_ex unconvertible xs then ''[object Object]''
      else ''[ '' @ join '', '' (map element_text xs) @ '' ]'')"
    by (simp add: array_join_eq)
next
  show "fmt_s (JObj es) =
     (if list_ex (\<lambda>kv. unconvertible (snd kv)) es then ''[object Object]''
      else ''{ '' @ join '', '' (map brace_entry es) @ '' }'')"
    by (simp add: collect_entry_text)
qed (simp_all add: plain_display_def JSON_stringify_def brace_entry_def)

theorem display_forms_witness:
  \<open>typeof (JNum 7) \<noteq> ''string'' \<and>
   format (number_text sample_env) (JNum 7)
     [JNull, JUndefined, JArr [JNum 1, JStr ''a''], JObj [(''k'', JStr ''v'')], JBool True] =
     Inr ''7 null undefined [1,"a"] {"k":"v"} true'' \<and>
   format (number_text sample_env) (JStr ''Data:'')
     [JObj [(''key'', JStr ''value'')], JNum 42, JArr [JNum 1, JNum 2]] =
     Inr ''Data: { key: 'value' } 42 [ 1, 2 ]'' \<and>
   format (number_text sample_env) (JStr ''Data:'')
     [JArr [JNum 1, unconvertible_object], JObj [(''a'', unconvertible_object)]] =
     Inr ''Data: [object Object] [object Object]''\<close>
proof -
  have t: "typeof (JNum 7) \<noteq> ''string''" by simp
  have a: \<open>collect (map plain_display [JNum 7, JNull, JUndefined, JArr [JNum 1, JStr ''a''],
              JObj [(''k'', JStr ''v'')], JBool True]) =
     Inr [''7'', ''null'', ''undefined'', ''[1,"a"]'', ''{"k":"v"}'', ''true'']\<close> by code_simp
  have b: "regex_scan ''Data:'' = [Lit CHR ''D'', Lit CHR ''a'', Lit CHR ''t'', Lit CHR ''a'', Lit CHR '':'']"
    by simp
  have c: \<open>join '' '' (map fmt_s [JObj [(''key'', JStr ''value'')], JNum 42, JArr [JNum 1, JNum 2]]) =
     ''{ key: 'value' } 42 [ 1, 2 ]''\<close>
    by code_simp
  have d: \<open>join '' '' (map fmt_s [JArr [JNum 1, unconvertible_object], JObj [(''a'', unconvertible_object)]]) =
     ''[object Object] [object Object]''\<close>
    by code_simp
  have u: "[0..<5] = [0, 1, 2, 3, 4]" by (simp add: upt_rec)
  show ?thesis
    using display_forms [where f = "JNum 7" and nt = "number_text sample_env"
        and args = "[JNull, JUndefined, JArr [JNum 1, JStr ''a''], JObj [(''k'', JStr ''v'')], JBool True]"]
      display_forms [where nt = "number_text sample_env" and t = "''Data:''"
        and args = "[JObj [(''key'', JStr ''value'')], JNum 42, JArr [JNum 1, JNum 2]]"]
      display_forms [where nt = "number_text sample_env" and t = "''Data:''"
        and args = "[JArr [JNum 1, unconvertible_object], JObj [(''a'', unconvertible_object)]]"]
      t a c d
    by (simp add: b u piece_def consuming_def)
qed


end
